theory Spec2Isabelle
  imports Complex_Main "HOL-Library.Sublist"
begin

section \<open>Python values\<close>

text \<open>
  The module works on untyped data: JSON documents, configuration mappings and item
  dictionaries. A value is one of the JSON-shaped Python values below. A float is
  either not-a-number, an infinity (\<open>FInf True\<close> is the positive one) or a finite
  number, given by its exact rational value.

  A Python \<open>str\<close> is modelled as a \<open>string\<close> whose characters are the code points
  0 to 255; the character classes below are Python's own on that range.
\<close>

datatype pyfloat = FNan | FInf bool | FFin rat

datatype pyval =
    PNone
  | PBool bool
  | PInt int
  | PFloat pyfloat
  | PStr string
  | PList "pyval list"
  | PDict "(string \<times> pyval) list"

type_synonym pydict = "(string \<times> pyval) list"

datatype exn =
    TypeError
  | AttributeError
  | ValueError
  | OverflowError
  | KeyError
  | IndexError
  | HTTPStatusError
  | TransportError
  | JSONDecodeError

text \<open>Truth value of a Python object, as \<open>not x\<close>, \<open>x or y\<close> and \<open>if x\<close> use it.\<close>

fun truthy :: "pyval \<Rightarrow> bool" where
  "truthy PNone = False"
| "truthy (PBool b) = b"
| "truthy (PInt n) = (n \<noteq> 0)"
| "truthy (PFloat f) = (f \<noteq> FFin 0)"
| "truthy (PStr s) = (s \<noteq> [])"
| "truthy (PList xs) = (xs \<noteq> [])"
| "truthy (PDict kvs) = (kvs \<noteq> [])"

definition py_or :: "pyval \<Rightarrow> pyval \<Rightarrow> pyval" where
  "py_or x y = (if truthy x then x else y)"

text \<open>\<open>d.get(k)\<close> and \<open>d.get(k, default)\<close>.\<close>

definition dict_get_default :: "pydict \<Rightarrow> string \<Rightarrow> pyval \<Rightarrow> pyval" where
  "dict_get_default d k dflt = (case map_of d k of None \<Rightarrow> dflt | Some v \<Rightarrow> v)"

definition dict_get :: "pydict \<Rightarrow> string \<Rightarrow> pyval" where
  "dict_get d k = dict_get_default d k PNone"

text \<open>\<open>str.isspace\<close> on one character, and \<open>str.strip()\<close>.\<close>

definition isspace :: "char \<Rightarrow> bool" where
  "isspace c = (c \<in> set [CHR 0x09, CHR 0x0A, CHR 0x0B, CHR 0x0C, CHR 0x0D,
                         CHR 0x1C, CHR 0x1D, CHR 0x1E, CHR 0x1F, CHR 0x20,
                         CHR 0x85, CHR 0xA0])"

definition strip :: "string \<Rightarrow> string" where
  "strip s = rev (dropWhile isspace (rev (dropWhile isspace s)))"

text \<open>\<open>v.strip()\<close> on a value: only a \<open>str\<close> has the method.\<close>

fun py_strip :: "pyval \<Rightarrow> exn + string" where
  "py_strip (PStr s) = Inr (strip s)"
| "py_strip _ = Inl AttributeError"

text \<open>\<open>str.lower()\<close>; \<open>v.lower()\<close> on a value.\<close>

definition upper_chars :: string where
  "upper_chars = ''ABCDEFGHIJKLMNOPQRSTUVWXYZ'' @
       [CHR 0xC0, CHR 0xC1, CHR 0xC2, CHR 0xC3, CHR 0xC4, CHR 0xC5, CHR 0xC6, CHR 0xC7,
        CHR 0xC8, CHR 0xC9, CHR 0xCA, CHR 0xCB, CHR 0xCC, CHR 0xCD, CHR 0xCE, CHR 0xCF,
        CHR 0xD0, CHR 0xD1, CHR 0xD2, CHR 0xD3, CHR 0xD4, CHR 0xD5, CHR 0xD6, CHR 0xD8,
        CHR 0xD9, CHR 0xDA, CHR 0xDB, CHR 0xDC, CHR 0xDD, CHR 0xDE]"

definition lower_chars :: string where
  "lower_chars = ''abcdefghijklmnopqrstuvwxyz'' @
       [CHR 0xE0, CHR 0xE1, CHR 0xE2, CHR 0xE3, CHR 0xE4, CHR 0xE5, CHR 0xE6, CHR 0xE7,
        CHR 0xE8, CHR 0xE9, CHR 0xEA, CHR 0xEB, CHR 0xEC, CHR 0xED, CHR 0xEE, CHR 0xEF,
        CHR 0xF0, CHR 0xF1, CHR 0xF2, CHR 0xF3, CHR 0xF4, CHR 0xF5, CHR 0xF6, CHR 0xF8,
        CHR 0xF9, CHR 0xFA, CHR 0xFB, CHR 0xFC, CHR 0xFD, CHR 0xFE]"

definition lower_char :: "char \<Rightarrow> char" where
  "lower_char c = (case map_of (zip upper_chars lower_chars) c of None \<Rightarrow> c | Some l \<Rightarrow> l)"

fun py_lower :: "pyval \<Rightarrow> exn + string" where
  "py_lower (PStr s) = Inr (map lower_char s)"
| "py_lower _ = Inl AttributeError"

text \<open>
  \<open>str.isdigit()\<close>: every character is a digit and there is at least one. The
  superscripts two, three and one are digits but not decimal characters.
\<close>

definition isdecimal :: "char \<Rightarrow> bool" where
  "isdecimal c = (c \<in> set ''0123456789'')"

definition isdigit :: "char \<Rightarrow> bool" where
  "isdigit c = (isdecimal c \<or> c \<in> set [CHR 0xB2, CHR 0xB3, CHR 0xB9])"

definition str_isdigit :: "string \<Rightarrow> bool" where
  "str_isdigit s = (s \<noteq> [] \<and> list_all isdigit s)"

text \<open>\<open>str(n)\<close> for an integer.\<close>

definition digit_char :: "nat \<Rightarrow> char" where
  "digit_char d = ''0123456789'' ! d"

function nat_str :: "nat \<Rightarrow> string" where
  "nat_str n = (if n < 10 then [digit_char n] else nat_str (n div 10) @ [digit_char (n mod 10)])"
  by pat_completeness auto
termination
  by (relation "measure id") auto

declare nat_str.simps [simp del]

definition int_str :: "int \<Rightarrow> string" where
  "int_str i = (if i < 0 then CHR ''-'' # nat_str (nat (- i)) else nat_str (nat i))"

text \<open>
  \<open>int(s)\<close> for a string: surrounding whitespace is dropped, one sign is allowed, and
  the rest is decimal characters, with single underscores between them. The
  interpreter refuses a string with more decimal characters than its limit, 4300
  unless configured otherwise (the sign, the underscores and the whitespace are not
  counted). The limit is modelled here; \<open>int_str\<close> above prints an integer
  whatever its length.
\<close>

definition int_max_str_digits :: nat where
  "int_max_str_digits = 4300"

definition digit_value :: "char \<Rightarrow> nat" where
  "digit_value c = of_char c - 48"

definition decimal_value :: "string \<Rightarrow> nat" where
  "decimal_value ds = foldl (\<lambda>acc c. 10 * acc + digit_value c) 0 ds"

fun no_double_underscore :: "string \<Rightarrow> bool" where
  "no_double_underscore (a # b # cs) =
     (\<not> (a = CHR ''_'' \<and> b = CHR ''_'') \<and> no_double_underscore (b # cs))"
| "no_double_underscore _ = True"

definition valid_int_body :: "string \<Rightarrow> bool" where
  "valid_int_body body =
     (body \<noteq> [] \<and> list_all (\<lambda>c. isdecimal c \<or> c = CHR ''_'') body \<and>
      isdecimal (hd body) \<and> isdecimal (last body) \<and> no_double_underscore body)"

definition int_of_str :: "string \<Rightarrow> exn + int" where
  "int_of_str s =
     (let t = strip s;
          neg = (t \<noteq> [] \<and> hd t = CHR ''-'');
          body = (if t \<noteq> [] \<and> (hd t = CHR ''-'' \<or> hd t = CHR ''+'') then tl t else t)
      in if valid_int_body body \<and> length (filter isdecimal body) \<le> int_max_str_digits
         then Inr ((if neg then - 1 else 1) * int (decimal_value (filter (\<lambda>c. c \<noteq> CHR ''_'') body)))
         else Inl ValueError)"

text \<open>\<open>int(v)\<close> on a value; a float is truncated towards zero.\<close>

definition float_trunc :: "rat \<Rightarrow> int" where
  "float_trunc q = (if 0 \<le> q then \<lfloor>q\<rfloor> else \<lceil>q\<rceil>)"

fun py_int :: "pyval \<Rightarrow> exn + int" where
  "py_int (PInt n) = Inr n"
| "py_int (PBool b) = Inr (if b then 1 else 0)"
| "py_int (PFloat FNan) = Inl ValueError"
| "py_int (PFloat (FInf pos)) = Inl OverflowError"
| "py_int (PFloat (FFin q)) = Inr (float_trunc q)"
| "py_int (PStr s) = int_of_str s"
| "py_int _ = Inl TypeError"

section \<open>The libraries and the clock\<close>

text \<open>
  The third-party libraries the module imports and the system clock are parameters:
  \<^item> \<open>nfkc\<close>: \<open>unicodedata.normalize("NFKC", s)\<close>;
  \<^item> \<open>opencc\<close>: the module-level converter, \<open>None\<close> when the import failed; a
    conversion that raises returns \<open>None\<close>;
  \<^item> \<open>fuzz\<close>: \<open>rapidfuzz.fuzz.token_set_ratio\<close>, \<open>None\<close> when the import failed;
  \<^item> \<open>now_ts\<close>: \<open>int(time.time())\<close>, the reading of the clock during the call;
  \<^item> \<open>dtparse\<close>: \<open>int(dateutil.parser.parse(s).timestamp())\<close>, \<open>None\<close> when it raises;
  \<^item> \<open>float_ms\<close>: \<open>int(v // 1000)\<close> on a finite float \<open>v\<close>, as the float unit rounds it;
  \<^item> \<open>md5hex\<close>: the hex digest of the UTF-8 encoding of a string;
  \<^item> \<open>py_repr\<close>: \<open>str(v)\<close> for a float, a list or a dict;
  \<^item> \<open>jsonpath\<close>: \<open>[m.value for m in jsonpath_ng.parse(path).find(d)]\<close>, \<open>None\<close> when
    parsing the path or the search raises;
  \<^item> \<open>mktime\<close>: \<open>int(time.mktime(t))\<close>, \<open>None\<close> when it raises.
\<close>

type_synonym struct_time = "int \<times> int \<times> int \<times> int \<times> int \<times> int \<times> int \<times> int \<times> int"

record env =
  nfkc :: "string \<Rightarrow> string"
  opencc :: "(string \<Rightarrow> string option) option"
  fuzz :: "(string \<Rightarrow> string \<Rightarrow> rat) option"
  now_ts :: int
  dtparse :: "string \<Rightarrow> int option"
  float_ms :: "rat \<Rightarrow> int"
  md5hex :: "string \<Rightarrow> string"
  py_repr :: "pyval \<Rightarrow> string"
  jsonpath :: "string \<Rightarrow> pyval \<Rightarrow> pyval list option"
  mktime :: "struct_time \<Rightarrow> int option"

text \<open>\<open>str(v)\<close>, as \<open>str()\<close> and an f-string field produce it.\<close>

definition py_str :: "env \<Rightarrow> pyval \<Rightarrow> string" where
  "py_str E v =
     (case v of
        PStr s \<Rightarrow> s
      | PNone \<Rightarrow> ''None''
      | PBool b \<Rightarrow> (if b then ''True'' else ''False'')
      | PInt n \<Rightarrow> int_str n
      | _ \<Rightarrow> py_repr E v)"

section \<open>Text normalisation\<close>

definition normalize_text :: "env \<Rightarrow> pyval \<Rightarrow> bool \<Rightarrow> exn + string" where
  "normalize_text E s use_opencc =
     (if \<not> truthy s then Inr []
      else case s of
        PStr str \<Rightarrow>
          (let t = nfkc E str;
               t = (if use_opencc
                    then (case opencc E of
                            None \<Rightarrow> t
                          | Some convert \<Rightarrow> (case convert t of None \<Rightarrow> t | Some t' \<Rightarrow> t'))
                    else t)
           in Inr (strip t))
      | _ \<Rightarrow> Inl TypeError)"

definition title_key :: "env \<Rightarrow> pyval \<Rightarrow> exn + string" where
  "title_key E title = normalize_text E title True"

section \<open>Merging and deduplication\<close>

text \<open>
  The loop of \<open>dedup_items\<close> carries \<open>seen_url\<close>, the keys of \<open>seen_title\<close> in
  insertion order, and \<open>out\<close>. An exception raised for one item ends the whole call.
\<close>

type_synonym dedup_state = "string set \<times> string list \<times> pydict list"

definition fuzzy_dup :: "env \<Rightarrow> bool \<Rightarrow> int \<Rightarrow> string \<Rightarrow> string list \<Rightarrow> bool" where
  "fuzzy_dup E enable_fuzzy fuzzy_threshold tkey seen_title =
     (enable_fuzzy \<and>
      (case fuzz E of
         None \<Rightarrow> False
       | Some token_set_ratio \<Rightarrow>
           list_ex (\<lambda>tk. of_int fuzzy_threshold \<le> token_set_ratio tkey tk) seen_title))"

fun dedup_loop :: "env \<Rightarrow> bool \<Rightarrow> int \<Rightarrow> pydict list \<Rightarrow> dedup_state \<Rightarrow> exn + dedup_state" where
  "dedup_loop E enable_fuzzy fuzzy_threshold [] st = Inr st"
| "dedup_loop E enable_fuzzy fuzzy_threshold (it # items) (seen_url, seen_title, out) =
     (case py_strip (py_or (dict_get it ''url'') (PStr [])) of
        Inl e \<Rightarrow> Inl e
      | Inr url \<Rightarrow>
          if url \<noteq> [] \<and> url \<in> seen_url
          then dedup_loop E enable_fuzzy fuzzy_threshold items (seen_url, seen_title, out)
          else
            (case title_key E (py_or (dict_get it ''title'') (PStr [])) of
               Inl e \<Rightarrow> Inl e
             | Inr tkey \<Rightarrow>
                 if tkey \<noteq> [] \<and> tkey \<in> set seen_title
                 then dedup_loop E enable_fuzzy fuzzy_threshold items (seen_url, seen_title, out)
                 else if fuzzy_dup E enable_fuzzy fuzzy_threshold tkey seen_title
                 then dedup_loop E enable_fuzzy fuzzy_threshold items (seen_url, seen_title, out)
                 else dedup_loop E enable_fuzzy fuzzy_threshold items
                        (if url \<noteq> [] then insert url seen_url else seen_url,
                         if tkey \<noteq> [] then seen_title @ [tkey] else seen_title,
                         out @ [it])))"

declare dedup_loop.simps(2) [simp del]

definition dedup_items :: "env \<Rightarrow> pydict list \<Rightarrow> bool \<Rightarrow> int \<Rightarrow> exn + pydict list" where
  "dedup_items E items enable_fuzzy fuzzy_threshold =
     (case dedup_loop E enable_fuzzy fuzzy_threshold items ({}, [], []) of
        Inl e \<Rightarrow> Inl e
      | Inr (seen_url, seen_title, out) \<Rightarrow> Inr out)"

definition merge_items :: "env \<Rightarrow> pydict list \<Rightarrow> pydict list \<Rightarrow> bool \<Rightarrow> int \<Rightarrow> exn + pydict list" where
  "merge_items E base_items custom_items enable_fuzzy fuzzy_threshold =
     dedup_items E (base_items @ custom_items) enable_fuzzy fuzzy_threshold"

section \<open>Timestamps\<close>

text \<open>
  \<open>v > 1e12\<close> and \<open>int(v // 1000)\<close> for a value that is an \<open>int\<close> or a \<open>float\<close>
  (a \<open>bool\<close> is an \<open>int\<close>). The floor division of an infinity is not-a-number.
\<close>

fun gt_1e12 :: "pyval \<Rightarrow> bool" where
  "gt_1e12 (PInt n) = (n > 10 ^ 12)"
| "gt_1e12 (PFloat (FFin q)) = (q > 10 ^ 12)"
| "gt_1e12 (PFloat (FInf pos)) = pos"
| "gt_1e12 _ = False"

fun int_floordiv_1000 :: "env \<Rightarrow> pyval \<Rightarrow> exn + int" where
  "int_floordiv_1000 E (PInt n) = Inr (n div 1000)"
| "int_floordiv_1000 E (PBool b) = Inr 0"
| "int_floordiv_1000 E (PFloat (FFin q)) = Inr (float_ms E q)"
| "int_floordiv_1000 E (PFloat f) = Inl ValueError"
| "int_floordiv_1000 E v = Inl TypeError"

fun is_int_or_float :: "pyval \<Rightarrow> bool" where
  "is_int_or_float (PBool b) = True"
| "is_int_or_float (PInt n) = True"
| "is_int_or_float (PFloat f) = True"
| "is_int_or_float _ = False"

definition parse_ts :: "env \<Rightarrow> pyval \<Rightarrow> exn + int" where
  "parse_ts E v =
     (if v = PNone then Inr (now_ts E)
      else if is_int_or_float v
        then (if gt_1e12 v then int_floordiv_1000 E v else py_int v)
      else case v of
        PStr s \<Rightarrow> (case dtparse E s of Some t \<Rightarrow> Inr t | None \<Rightarrow> Inr (now_ts E))
      | _ \<Rightarrow> Inr (now_ts E))"

section \<open>Items and sources\<close>

text \<open>
  The fields of the dataclass \<open>Item\<close>, with the prefix \<open>i_\<close>. Those that
  \<open>_mk_item\<close> computes have the type it gives them; \<open>rank\<close>, \<open>source\<close> and
  \<open>source_key\<close> are whatever the response or the configuration holds.
\<close>

record item =
  i_title :: string
  i_url :: string
  i_ts :: int
  i_rank :: pyval
  i_source :: pyval
  i_source_key :: pyval
  i_id :: string

definition to_dict :: "item \<Rightarrow> pydict" where
  "to_dict x =
     [(''title'', PStr (i_title x)),
      (''url'', PStr (i_url x)),
      (''ts'', PInt (i_ts x)),
      (''rank'', i_rank x),
      (''source'', i_source x),
      (''source_key'', i_source_key x),
      (''id'', PStr (i_id x))]"

definition make_id :: "env \<Rightarrow> pyval \<Rightarrow> pyval \<Rightarrow> pyval \<Rightarrow> exn + string" where
  "make_id E source_key title url =
     (case normalize_text E title False of
        Inl e \<Rightarrow> Inl e
      | Inr t \<Rightarrow> Inr (md5hex E (py_str E source_key @ ''|'' @ t @ ''|'' @ py_str E url)))"

definition safe_get :: "env \<Rightarrow> pyval \<Rightarrow> pyval \<Rightarrow> pyval \<Rightarrow> pyval" where
  "safe_get E d path dflt =
     (case path of
        PStr p \<Rightarrow> (case jsonpath E p d of None \<Rightarrow> dflt | Some [] \<Rightarrow> dflt | Some (m # ms) \<Rightarrow> m)
      | _ \<Rightarrow> dflt)"

text \<open>
  \<open>BaseSource.__init__\<close>. The rate limiter only delays a request, so of the lines that
  set it up the model keeps the exceptions they raise: \<open>rl.get\<close> on a value that is
  not a dict, and \<open>60.0 / rpm\<close> on a value that is not a number or is an \<open>int\<close> too
  large for a float.
\<close>

record source =
  s_cfg :: pydict
  s_key :: pyval
  s_name :: pyval

definition rate_limit_init :: "pydict \<Rightarrow> exn + unit" where
  "rate_limit_init cfg =
     (case py_or (dict_get cfg ''rate_limit'') (PDict []) of
        PDict rl \<Rightarrow>
          (let rpm = dict_get rl ''rpm''
           in if truthy rpm
              then (case rpm of
                      PBool b \<Rightarrow> Inr ()
                    | PInt n \<Rightarrow> if \<bar>n\<bar> < 2 ^ 1024 - 2 ^ 970 then Inr () else Inl OverflowError
                    | PFloat f \<Rightarrow> Inr ()
                    | _ \<Rightarrow> Inl TypeError)
              else Inr ())
      | _ \<Rightarrow> Inl AttributeError)"

definition base_init :: "pydict \<Rightarrow> exn + source" where
  "base_init cfg =
     (let key = py_or (py_or (dict_get cfg ''key'') (dict_get cfg ''name'')) (PStr ''custom'');
          name = dict_get_default cfg ''name'' key
      in case rate_limit_init cfg of
           Inl e \<Rightarrow> Inl e
         | Inr u \<Rightarrow> Inr \<lparr> s_cfg = cfg, s_key = key, s_name = name \<rparr>)"

definition mk_item :: "env \<Rightarrow> source \<Rightarrow> pyval \<Rightarrow> pyval \<Rightarrow> pyval \<Rightarrow> pyval \<Rightarrow> exn + item" where
  "mk_item E self title url ts rank =
     (case normalize_text E title True of
        Inl e \<Rightarrow> Inl e
      | Inr title' \<Rightarrow>
     (case py_strip (py_or url (PStr [])) of
        Inl e \<Rightarrow> Inl e
      | Inr url' \<Rightarrow>
     (case parse_ts E ts of
        Inl e \<Rightarrow> Inl e
      | Inr ts' \<Rightarrow>
     (case make_id E (s_key self) (PStr title') (PStr url') of
        Inl e \<Rightarrow> Inl e
      | Inr ident \<Rightarrow>
          Inr \<lparr> i_title = title', i_url = url', i_ts = ts', i_rank = rank,
                i_source = s_name self, i_source_key = s_key self, i_id = ident \<rparr>))))"

text \<open>\<open>d[k]\<close> on a dict.\<close>

definition dict_item :: "pydict \<Rightarrow> string \<Rightarrow> exn + pyval" where
  "dict_item d k = (case map_of d k of None \<Rightarrow> Inl KeyError | Some v \<Rightarrow> Inr v)"

section \<open>The adapters\<close>

text \<open>
  What the network gives an adapter is an input of its \<open>fetch\<close>. For the REST adapter:
  the request raises, or there is a response with a status code and a body, whose
  \<open>json()\<close> is a value or raises. \<open>raise_for_status\<close> lets the 2xx codes through.
\<close>

datatype http_result = RequestError exn | Response int "pyval option"

fun rest_loop :: "env \<Rightarrow> source \<Rightarrow> pyval \<Rightarrow> pyval list \<Rightarrow> item list \<Rightarrow> exn + item list" where
  "rest_loop E self extract [] items = Inr items"
| "rest_loop E self extract (it # lst) items =
     (case extract of
        PDict ex \<Rightarrow>
          (let title = safe_get E it (dict_get_default ex ''title'' (PStr [])) (PStr []);
               url = safe_get E it (dict_get_default ex ''url'' (PStr [])) (PStr []);
               ts = safe_get E it (dict_get_default ex ''ts'' (PStr [])) PNone;
               rank = safe_get E it (dict_get_default ex ''rank'' (PStr [])) PNone
           in if \<not> truthy title \<or> \<not> truthy url
              then rest_loop E self extract lst items
              else (case mk_item E self title url ts rank of
                      Inl e \<Rightarrow> Inl e
                    | Inr x \<Rightarrow> rest_loop E self extract lst (items @ [x])))
      | _ \<Rightarrow> Inl AttributeError)"

definition rest_list :: "env \<Rightarrow> pyval \<Rightarrow> pyval \<Rightarrow> pyval list" where
  "rest_list E extract data =
     (case extract of
        PDict ex \<Rightarrow>
          (case map_of ex ''list'' of
             Some (PStr path) \<Rightarrow> (case jsonpath E path data of None \<Rightarrow> [] | Some ms \<Rightarrow> ms)
           | _ \<Rightarrow> [])
      | _ \<Rightarrow> [])"

definition rest_fetch :: "env \<Rightarrow> source \<Rightarrow> http_result \<Rightarrow> exn + item list" where
  "rest_fetch E self reply =
     (case dict_item (s_cfg self) ''endpoint'' of
        Inl e \<Rightarrow> Inl e
      | Inr ep \<Rightarrow>
     (case dict_get_default (s_cfg self) ''method'' (PStr ''GET'') of
        PStr method \<Rightarrow>
          (case dict_item (s_cfg self) ''extract'' of
             Inl e \<Rightarrow> Inl e
           | Inr extract \<Rightarrow>
               (case reply of
                  RequestError e \<Rightarrow> Inl e
                | Response status body \<Rightarrow>
                    if \<not> (200 \<le> status \<and> status < 300) then Inl HTTPStatusError
                    else (case body of
                            None \<Rightarrow> Inl JSONDecodeError
                          | Some data \<Rightarrow> rest_loop E self extract (rest_list E extract data) [])))
      | _ \<Rightarrow> Inl AttributeError))"

text \<open>
  For the RSS adapter: the parsed feed's entries, each with what \<open>e.get("title")\<close>,
  \<open>e.get("link")\<close> and \<open>e.get("published_parsed")\<close> return.
\<close>

record rss_entry =
  rss_title :: pyval
  rss_link :: pyval
  rss_published_parsed :: "struct_time option"

fun rss_loop :: "env \<Rightarrow> source \<Rightarrow> rss_entry list \<Rightarrow> item list \<Rightarrow> exn + item list" where
  "rss_loop E self [] items = Inr items"
| "rss_loop E self (e # entries) items =
     (let title = rss_title e; url = rss_link e
      in if \<not> truthy title \<or> \<not> truthy url
         then rss_loop E self entries items
         else (case (case rss_published_parsed e of
                       None \<Rightarrow> Inr 0
                     | Some p \<Rightarrow> (case mktime E p of None \<Rightarrow> Inl OverflowError | Some t \<Rightarrow> Inr t)) of
                 Inl err \<Rightarrow> Inl err
               | Inr ts \<Rightarrow>
                   (case mk_item E self title url (PInt ts) PNone of
                      Inl err \<Rightarrow> Inl err
                    | Inr x \<Rightarrow> rss_loop E self entries (items @ [x]))))"

definition rss_fetch :: "env \<Rightarrow> source \<Rightarrow> exn + rss_entry list \<Rightarrow> exn + item list" where
  "rss_fetch E self feed =
     (case dict_item (s_cfg self) ''endpoint'' of
        Inl e \<Rightarrow> Inl e
      | Inr ep \<Rightarrow> (case feed of Inl e \<Rightarrow> Inl e | Inr entries \<Rightarrow> rss_loop E self entries []))"

text \<open>
  For the HTML adapter: the request or the parser raises, or the item selector gives
  nodes; a node is given by what the loop body reads off it: the title, the URL after
  \<open>urljoin\<close>, and \<open>ts_val\<close>.
\<close>

record html_node =
  h_title :: pyval
  h_url :: pyval
  h_ts_val :: pyval

fun html_loop :: "env \<Rightarrow> source \<Rightarrow> html_node list \<Rightarrow> item list \<Rightarrow> exn + item list" where
  "html_loop E self [] out = Inr out"
| "html_loop E self (a # nodes) out =
     (if \<not> truthy (h_title a) \<or> \<not> truthy (h_url a)
      then html_loop E self nodes out
      else (case mk_item E self (h_title a) (h_url a) (h_ts_val a) PNone of
              Inl e \<Rightarrow> Inl e
            | Inr x \<Rightarrow> html_loop E self nodes (out @ [x])))"

definition html_fetch :: "env \<Rightarrow> source \<Rightarrow> exn + html_node list \<Rightarrow> exn + item list" where
  "html_fetch E self reply =
     (case dict_item (s_cfg self) ''endpoint'' of
        Inl e \<Rightarrow> Inl e
      | Inr ep \<Rightarrow>
     (case dict_get_default (s_cfg self) ''html'' (PDict []) of
        PDict hcfg \<Rightarrow>
          (case dict_item hcfg ''item'' of
             Inl e \<Rightarrow> Inl e
           | Inr item_sel \<Rightarrow>
               (case reply of Inl e \<Rightarrow> Inl e | Inr nodes \<Rightarrow> html_loop E self nodes []))
      | _ \<Rightarrow> Inl TypeError))"

section \<open>The orchestrator\<close>

datatype kind = RestSource | RssSource | HtmlSource

definition build_source :: "pydict \<Rightarrow> exn + (kind \<times> source) option" where
  "build_source cfg =
     (case py_lower (py_or (dict_get cfg ''type'') (PStr [])) of
        Inl e \<Rightarrow> Inl e
      | Inr typ \<Rightarrow>
          if typ = ''rest'' then map_sum id (\<lambda>s. Some (RestSource, s)) (base_init cfg)
          else if typ = ''rss'' then map_sum id (\<lambda>s. Some (RssSource, s)) (base_init cfg)
          else if typ = ''html'' then map_sum id (\<lambda>s. Some (HtmlSource, s)) (base_init cfg)
          else Inr None)"

text \<open>The network, asked by a source's configuration.\<close>

record world =
  w_http :: "pydict \<Rightarrow> http_result"
  w_feed :: "pydict \<Rightarrow> exn + rss_entry list"
  w_html :: "pydict \<Rightarrow> exn + html_node list"

definition fetch :: "world \<Rightarrow> env \<Rightarrow> kind \<times> source \<Rightarrow> exn + item list" where
  "fetch W E task =
     (case task of
        (RestSource, s) \<Rightarrow> rest_fetch E s (w_http W (s_cfg s))
      | (RssSource, s) \<Rightarrow> rss_fetch E s (w_feed W (s_cfg s))
      | (HtmlSource, s) \<Rightarrow> html_fetch E s (w_html W (s_cfg s)))"

fun build_tasks :: "pydict list \<Rightarrow> (kind \<times> source) list \<Rightarrow> exn + (kind \<times> source) list" where
  "build_tasks [] tasks = Inr tasks"
| "build_tasks (sc # src_cfgs) tasks =
     (case build_source sc of
        Inl e \<Rightarrow> Inl e
      | Inr None \<Rightarrow> build_tasks src_cfgs tasks
      | Inr (Some s) \<Rightarrow> build_tasks src_cfgs (tasks @ [s]))"

text \<open>
  The loop over \<open>enumerate(results)\<close>, from index \<open>i\<close> on. The printed line is modelled
  by its two fields: the key and the exception.
\<close>

type_synonym log = "(pyval \<times> exn) list"

fun collect :: "pydict list \<Rightarrow> nat \<Rightarrow> (exn + item list) list \<Rightarrow> item list \<times> log \<Rightarrow> exn + item list \<times> log" where
  "collect src_cfgs i [] st = Inr st"
| "collect src_cfgs i (r # results) (merged, lg) =
     (case r of
        Inl e \<Rightarrow>
          if i < length src_cfgs
          then collect src_cfgs (Suc i) results
                 (merged,
                  lg @ [(dict_get_default (src_cfgs ! i) ''key'' (PStr (''unknown_source_'' @ nat_str i)), e)])
          else Inl IndexError
      | Inr xs \<Rightarrow> collect src_cfgs (Suc i) results (merged @ xs, lg))"

definition fetch_custom_all :: "world \<Rightarrow> env \<Rightarrow> pydict list \<Rightarrow> exn + pydict list \<times> log" where
  "fetch_custom_all W E src_cfgs =
     (case build_tasks src_cfgs [] of
        Inl e \<Rightarrow> Inl e
      | Inr tasks \<Rightarrow>
          (case collect src_cfgs 0 (map (fetch W E) tasks) ([], []) of
             Inl e \<Rightarrow> Inl e
           | Inr (merged, lg) \<Rightarrow> Inr (map to_dict merged, lg)))"

section \<open>Reshaping for the report\<close>

record entry =
  e_ranks :: "int list"
  e_url :: pyval
  e_mobileUrl :: string

type_synonym results = "string \<rightharpoonup> (string \<rightharpoonup> entry)"
type_synonym names = "string \<rightharpoonup> pyval"

definition rank_or_next :: "env \<Rightarrow> pyval \<Rightarrow> int list \<Rightarrow> exn + int" where
  "rank_or_next E rank ranks =
     (if (is_int_or_float rank \<or> (case rank of PStr s \<Rightarrow> True | _ \<Rightarrow> False)) \<and> str_isdigit (py_str E rank)
      then py_int rank
      else Inr (int (length ranks) + 1))"

fun custom_to_results_loop :: "env \<Rightarrow> pydict list \<Rightarrow> results \<times> names \<Rightarrow> exn + results \<times> names" where
  "custom_to_results_loop E [] st = Inr st"
| "custom_to_results_loop E (it # custom_items) (c_results, c_id_to_name) =
     (let sid = ''custom:'' @ py_str E (dict_get_default it ''source_key'' (PStr ''custom''));
          sname = py_or (dict_get it ''source'') (PStr sid);
          c_id_to_name = c_id_to_name(sid \<mapsto> sname);
          bucket = (case c_results sid of None \<Rightarrow> Map.empty | Some b \<Rightarrow> b);
          c_results = c_results(sid \<mapsto> bucket)
      in case py_strip (py_or (dict_get it ''title'') (PStr [])) of
           Inl e \<Rightarrow> Inl e
         | Inr title \<Rightarrow>
             if title = [] then custom_to_results_loop E custom_items (c_results, c_id_to_name)
             else
               (let url = py_or (dict_get it ''url'') (PStr []);
                    rank = dict_get it ''rank'';
                    entry = (case bucket title of
                               None \<Rightarrow> \<lparr> e_ranks = [], e_url = url, e_mobileUrl = [] \<rparr>
                             | Some en \<Rightarrow> en);
                    entry = entry \<lparr> e_url := py_or (e_url entry) url \<rparr>
                in case rank_or_next E rank (e_ranks entry) of
                     Inl e \<Rightarrow> Inl e
                   | Inr r \<Rightarrow>
                       custom_to_results_loop E custom_items
                         (c_results(sid \<mapsto> bucket(title \<mapsto> entry \<lparr> e_ranks := e_ranks entry @ [r] \<rparr>)),
                          c_id_to_name)))"

declare custom_to_results_loop.simps(2) [simp del]

definition custom_to_results :: "env \<Rightarrow> pydict list \<Rightarrow> exn + results \<times> names" where
  "custom_to_results E custom_items = custom_to_results_loop E custom_items (Map.empty, Map.empty)"

section \<open>Notions used in the statements\<close>

subsection \<open>Deduplication\<close>

text \<open>
  The two keys the loop of \<open>dedup_items\<close> computes for an item, and the decision it
  takes for one item in a given state: an exception, a drop (\<open>None\<close>), or the keys to
  remember for a kept item.
\<close>

definition url_of :: "pydict \<Rightarrow> exn + string" where
  "url_of it = py_strip (py_or (dict_get it ''url'') (PStr []))"

definition tkey_of :: "env \<Rightarrow> pydict \<Rightarrow> exn + string" where
  "tkey_of E it = title_key E (py_or (dict_get it ''title'') (PStr []))"

definition dedup_verdict ::
  "env \<Rightarrow> bool \<Rightarrow> int \<Rightarrow> string set \<Rightarrow> string list \<Rightarrow> pydict \<Rightarrow> exn + (string \<times> string) option" where
  "dedup_verdict E fz thr seen_url seen_title it =
     (case url_of it of
        Inl e \<Rightarrow> Inl e
      | Inr url \<Rightarrow>
          if url \<noteq> [] \<and> url \<in> seen_url then Inr None
          else
            (case tkey_of E it of
               Inl e \<Rightarrow> Inl e
             | Inr tkey \<Rightarrow>
                 if tkey \<noteq> [] \<and> tkey \<in> set seen_title then Inr None
                 else if fuzzy_dup E fz thr tkey seen_title then Inr None
                 else Inr (Some (url, tkey))))"

definition remember :: "string \<times> string \<Rightarrow> string set \<times> string list \<Rightarrow> string set \<times> string list" where
  "remember k s = (case k of (url, tkey) \<Rightarrow> case s of (seen_url, seen_title) \<Rightarrow>
     (if url \<noteq> [] then insert url seen_url else seen_url,
      if tkey \<noteq> [] then seen_title @ [tkey] else seen_title))"

text \<open>The keys of the items kept so far.\<close>

definition urls_of :: "pydict list \<Rightarrow> string set" where
  "urls_of kept = {u. u \<noteq> [] \<and> (\<exists>y\<in>set kept. url_of y = Inr u)}"

definition tkeys_of :: "env \<Rightarrow> pydict list \<Rightarrow> string list" where
  "tkeys_of E kept =
     concat (map (\<lambda>y. case tkey_of E y of Inl e \<Rightarrow> [] | Inr t \<Rightarrow> if t \<noteq> [] then [t] else []) kept)"

text \<open>
  Item \<open>x\<close> is a duplicate of the kept item \<open>y\<close>: the same non-empty URL, the same
  non-empty title key, or a similar title key. The last follows the words of the
  specification, not the loop: fuzzy matching is enabled, a similarity backend is
  available, and the score of the candidate's title key against the seen title key is
  at least the threshold.
\<close>

definition same_url :: "pydict \<Rightarrow> pydict \<Rightarrow> bool" where
  "same_url y x = (case url_of x of Inl e \<Rightarrow> False | Inr u \<Rightarrow> u \<noteq> [] \<and> url_of y = Inr u)"

definition same_title :: "env \<Rightarrow> pydict \<Rightarrow> pydict \<Rightarrow> bool" where
  "same_title E y x = (case tkey_of E x of Inl e \<Rightarrow> False | Inr t \<Rightarrow> t \<noteq> [] \<and> tkey_of E y = Inr t)"

definition similar_title :: "env \<Rightarrow> bool \<Rightarrow> int \<Rightarrow> pydict \<Rightarrow> pydict \<Rightarrow> bool" where
  "similar_title E fz thr y x =
     (fz \<and>
      (case fuzz E of
         None \<Rightarrow> False
       | Some score \<Rightarrow>
           (case tkey_of E x of
              Inl e \<Rightarrow> False
            | Inr candidate \<Rightarrow>
                (case tkey_of E y of
                   Inl e \<Rightarrow> False
                 | Inr seen \<Rightarrow> seen \<noteq> [] \<and> of_int thr \<le> score candidate seen))))"

definition duplicate_of :: "env \<Rightarrow> bool \<Rightarrow> int \<Rightarrow> pydict \<Rightarrow> pydict \<Rightarrow> bool" where
  "duplicate_of E fz thr y x = (same_url y x \<or> same_title E y x \<or> similar_title E fz thr y x)"

subsection \<open>Reshaping\<close>

text \<open>
  The parts of one round of the loop of \<open>custom_to_results\<close>: the source id and the
  display name of an item, the bucket of a source id, the two lines that register the
  source (before the title is looked at), and the lines after the title test.
\<close>

definition sid_of :: "env \<Rightarrow> pydict \<Rightarrow> string" where
  "sid_of E it = ''custom:'' @ py_str E (dict_get_default it ''source_key'' (PStr ''custom''))"

definition sname_of :: "env \<Rightarrow> pydict \<Rightarrow> pyval" where
  "sname_of E it = py_or (dict_get it ''source'') (PStr (sid_of E it))"

definition bucket_of :: "results \<Rightarrow> string \<Rightarrow> (string \<rightharpoonup> entry)" where
  "bucket_of r sid = (case r sid of None \<Rightarrow> Map.empty | Some b \<Rightarrow> b)"

definition register :: "env \<Rightarrow> pydict \<Rightarrow> results \<times> names \<Rightarrow> results \<times> names" where
  "register E it st = (case st of (r, n) \<Rightarrow>
     (r(sid_of E it \<mapsto> bucket_of r (sid_of E it)), n(sid_of E it \<mapsto> sname_of E it)))"

definition add_rank :: "env \<Rightarrow> pydict \<Rightarrow> string \<Rightarrow> results \<times> names \<Rightarrow> exn + results \<times> names" where
  "add_rank E it title st = (case st of (r, n) \<Rightarrow>
     (let sid = sid_of E it;
          bucket = bucket_of r sid;
          url = py_or (dict_get it ''url'') (PStr []);
          entry = (case bucket title of
                     None \<Rightarrow> \<lparr> e_ranks = [], e_url = url, e_mobileUrl = [] \<rparr>
                   | Some en \<Rightarrow> en);
          entry = entry \<lparr> e_url := py_or (e_url entry) url \<rparr>
      in case rank_or_next E (dict_get it ''rank'') (e_ranks entry) of
           Inl e \<Rightarrow> Inl e
         | Inr k \<Rightarrow> Inr (r(sid \<mapsto> bucket(title \<mapsto> entry \<lparr> e_ranks := e_ranks entry @ [k] \<rparr>)), n)))"

definition ctr_step :: "env \<Rightarrow> pydict \<Rightarrow> results \<times> names \<Rightarrow> exn + results \<times> names" where
  "ctr_step E it st =
     (case py_strip (py_or (dict_get it ''title'') (PStr [])) of
        Inl e \<Rightarrow> Inl e
      | Inr title \<Rightarrow> if title = [] then Inr (register E it st) else add_rank E it title (register E it st))"

text \<open>
  What an item without a title leaves in the two mappings: a bucket for its source id
  (the one already there, else an empty one), and, unless a later item of the same
  source id overwrites it (\<open>later\<close>), its display name.
\<close>

definition mark :: "string \<Rightarrow> pyval \<Rightarrow> bool \<Rightarrow> results \<times> names \<Rightarrow> results \<times> names" where
  "mark sid sname later st = (case st of (r, n) \<Rightarrow>
     (r(sid \<mapsto> bucket_of r sid), if later then n else n(sid \<mapsto> sname)))"

subsection \<open>Calendar time\<close>

text \<open>
  The epoch seconds of a calendar time given in UTC, as \<open>calendar.timegm\<close> computes
  them from the first six components of the tuple: the days since 1970-01-01 in the
  proleptic Gregorian calendar, then the time of day.
\<close>

definition days_from_civil :: "int \<Rightarrow> int \<Rightarrow> int \<Rightarrow> int" where
  "days_from_civil y m d =
     (let y' = (if m \<le> 2 then y - 1 else y);
          era = y' div 400;
          yoe = y' - era * 400;
          doy = (153 * (if m > 2 then m - 3 else m + 9) + 2) div 5 + d - 1;
          doe = yoe * 365 + yoe div 4 - yoe div 100 + doy
      in era * 146097 + doe - 719468)"

definition timegm :: "struct_time \<Rightarrow> int" where
  "timegm t =
     (case t of (year, mon, mday, hour, minute, sec, wday, yday, isdst) \<Rightarrow>
        days_from_civil year mon mday * 86400 + hour * 3600 + minute * 60 + sec)"

text \<open>
  \<open>int(time.mktime(t))\<close> reads the tuple as local time. On a machine whose zone is
  \<open>utc_offset\<close> seconds east of UTC all year, that is the UTC reading less the offset.
\<close>

definition mktime_at :: "int \<Rightarrow> struct_time \<Rightarrow> int option" where
  "mktime_at utc_offset t = Some (timegm t - utc_offset)"

subsection \<open>The orchestrator\<close>

text \<open>The items of the fetches that succeeded, in order, and the exceptions of the others.\<close>

definition successes :: "(exn + item list) list \<Rightarrow> item list" where
  "successes results = concat (map (\<lambda>r. case r of Inl e \<Rightarrow> [] | Inr xs \<Rightarrow> xs) results)"

definition failures :: "(exn + item list) list \<Rightarrow> exn list" where
  "failures results = concat (map (\<lambda>r. case r of Inl e \<Rightarrow> [e] | Inr xs \<Rightarrow> []) results)"

section \<open>Concrete inputs\<close>

text \<open>
  A small environment for evaluating the functions: on the ASCII strings used below
  NFKC changes nothing; the converter is absent; the scorer gives 100 to equal strings
  and 0 to others; the clock reads 1700000000; one date string parses; a JSON path is
  a field name, or \<open>items[*]\<close> for the elements of the list under \<open>items\<close>; the
  digest is replaced by the text it would hash; the machine's zone is UTC;
  \<open>str()\<close> of a float or a container, which no input below needs, is a fixed text.
  \<open>shanghai_env\<close> is the same environment on a machine whose zone is eight hours
  east of UTC.
\<close>

definition demo_jsonpath :: "string \<Rightarrow> pyval \<Rightarrow> pyval list option" where
  "demo_jsonpath path d =
     (if path = [] then None
      else case d of
        PDict kvs \<Rightarrow>
          (if path = ''items[*]''
           then (case map_of kvs ''items'' of Some (PList xs) \<Rightarrow> Some xs | _ \<Rightarrow> Some [])
           else (case map_of kvs path of None \<Rightarrow> Some [] | Some v \<Rightarrow> Some [v]))
      | _ \<Rightarrow> Some [])"

definition demo_env :: env where
  "demo_env = \<lparr> nfkc = (\<lambda>s. s), opencc = None,
      fuzz = Some (\<lambda>a b. if a = b then 100 else 0),
      now_ts = 1700000000,
      dtparse = (\<lambda>s. if s = ''2023-11-14T22:13:20Z'' then Some 1700000000 else None),
      float_ms = (\<lambda>q. \<lfloor>q / 1000\<rfloor>),
      md5hex = (\<lambda>s. s),
      py_repr = (\<lambda>v. ''[]''),
      jsonpath = demo_jsonpath,
      mktime = mktime_at 0 \<rparr>"

definition shanghai_env :: env where
  "shanghai_env = demo_env \<lparr> mktime := mktime_at 28800 \<rparr>"

definition item_a :: pydict where
  "item_a = [(''title'', PStr ''Alpha''), (''url'', PStr ''http://x/1'')]"

definition item_b :: pydict where
  "item_b = [(''title'', PStr ''Beta''), (''url'', PStr '' http://x/1 '')]"

definition item_c :: pydict where
  "item_c = [(''title'', PStr ''Alpha ''), (''url'', PStr ''http://x/3'')]"

definition item_d :: pydict where
  "item_d = [(''title'', PStr ''Delta''), (''url'', PNone)]"

definition blank_url_a :: pydict where
  "blank_url_a = [(''title'', PStr ''Alpha''), (''url'', PStr '' '')]"

definition blank_url_b :: pydict where
  "blank_url_b = [(''title'', PStr ''Beta''), (''url'', PStr '' '')]"

definition untitled_a :: pydict where
  "untitled_a = [(''title'', PStr []), (''url'', PStr ''http://x/1'')]"

definition untitled_b :: pydict where
  "untitled_b = [(''title'', PStr []), (''url'', PStr ''http://x/2'')]"

definition scenario_item :: pydict where
  "scenario_item =
     [(''title'', PStr ''A''), (''url'', PStr ''u1''), (''rank'', PNone), (''source_key'', PStr ''s1'')]"

definition superscript_item :: pydict where
  "superscript_item =
     [(''title'', PStr ''A''), (''url'', PStr ''u1''), (''rank'', PStr [CHR 0xB2]), (''source_key'', PStr ''s1'')]"

definition blank_item :: pydict where
  "blank_item = [(''title'', PStr '' ''), (''source'', PStr ''S1''), (''source_key'', PStr ''s1'')]"

definition demo_source :: source where
  "demo_source =
     \<lparr> s_cfg = [(''type'', PStr ''rss''), (''key'', PStr ''feed''), (''endpoint'', PStr ''http://f/rss'')],
       s_key = PStr ''feed'', s_name = PStr ''feed'' \<rparr>"

text \<open>
  A feed of three entries: the first published at 2023-11-14 22:13:20 UTC, the second
  without a published time, the third without a title.
\<close>

definition demo_entries :: "rss_entry list" where
  "demo_entries =
     [\<lparr> rss_title = PStr ''One'', rss_link = PStr ''http://f/1'',
        rss_published_parsed = Some (2023, 11, 14, 22, 13, 20, 1, 318, 0) \<rparr>,
      \<lparr> rss_title = PStr ''Two'', rss_link = PStr ''http://f/2'', rss_published_parsed = None \<rparr>,
      \<lparr> rss_title = PNone, rss_link = PStr ''http://f/3'', rss_published_parsed = None \<rparr>]"

definition rest_cfg :: pydict where
  "rest_cfg =
     [(''type'', PStr ''rest''), (''key'', PStr ''b''), (''endpoint'', PStr ''http://api/b''),
      (''extract'', PDict [(''list'', PStr ''items[*]''), (''title'', PStr ''t''), (''url'', PStr ''u'')])]"

definition rest_source :: source where
  "rest_source = \<lparr> s_cfg = rest_cfg, s_key = PStr ''b'', s_name = PStr ''b'' \<rparr>"

definition blank_title_body :: pyval where
  "blank_title_body = PDict [(''items'', PList [PDict [(''t'', PStr ''  ''), (''u'', PStr ''http://a/1'')]])]"

definition skipped_cfg :: pydict where
  "skipped_cfg = [(''type'', PStr ''ftp''), (''key'', PStr ''a''), (''endpoint'', PStr ''ftp://a'')]"

definition demo_world :: world where
  "demo_world =
     \<lparr> w_http = (\<lambda>cfg. Response 500 None),
       w_feed = (\<lambda>cfg. Inr demo_entries),
       w_html = (\<lambda>cfg. Inr []) \<rparr>"

section \<open>Deduplication: the loop\<close>

lemmas eval_defs =
  dict_get_def dict_get_default_def dict_item_def py_or_def strip_def isspace_def
  title_key_def normalize_text_def fuzzy_dup_def py_str_def Let_def

lemmas dedup_eval =
  dedup_items_def dedup_loop.simps url_of_def tkey_of_def eval_defs

lemma dedup_loop_Cons:
  "dedup_loop E fz thr (it # items) (su, st, out) =
     (case dedup_verdict E fz thr su st it of
        Inl e \<Rightarrow> Inl e
      | Inr None \<Rightarrow> dedup_loop E fz thr items (su, st, out)
      | Inr (Some k) \<Rightarrow>
          dedup_loop E fz thr items (fst (remember k (su, st)), snd (remember k (su, st)), out @ [it]))"
  by (simp add: dedup_loop.simps dedup_verdict_def remember_def url_of_def tkey_of_def
      split: sum.splits)

lemma dedup_loop_append:
  "dedup_loop E fz thr (xs @ ys) s =
     (case dedup_loop E fz thr xs s of Inl e \<Rightarrow> Inl e | Inr s' \<Rightarrow> dedup_loop E fz thr ys s')"
proof (induction xs arbitrary: s)
  case Nil
  show ?case by simp
next
  case (Cons x xs)
  obtain su st out where s: "s = (su, st, out)" by (cases s)
  show ?case unfolding s append_Cons dedup_loop_Cons
    by (simp add: Cons.IH split: sum.splits option.splits)
qed

text \<open>
  A run that returns only appends to \<open>out\<close>; what it appends is a subsequence of the
  input, and running the loop again on it from the same state keeps all of it and
  ends in the same state.
\<close>

lemma dedup_loop_out:
  "dedup_loop E fz thr L (su, st, out) = Inr (su', st', res) \<Longrightarrow>
   \<exists>kept. res = out @ kept \<and> subseq kept L \<and>
     (\<forall>out'. dedup_loop E fz thr kept (su, st, out') = Inr (su', st', out' @ kept))"
proof (induction L arbitrary: su st out)
  case Nil
  then show ?case by simp
next
  case (Cons it L)
  show ?case
  proof (cases "dedup_verdict E fz thr su st it")
    case (Inl e)
    with Cons.prems show ?thesis by (simp add: dedup_loop_Cons)
  next
    case (Inr v)
    show ?thesis
    proof (cases v)
      case None
      with Inr Cons.prems have "dedup_loop E fz thr L (su, st, out) = Inr (su', st', res)"
        by (simp add: dedup_loop_Cons)
      from Cons.IH[OF this] show ?thesis by auto
    next
      case (Some k)
      obtain su1 st1 where r: "remember k (su, st) = (su1, st1)"
        by (cases "remember k (su, st)")
      with Some Inr Cons.prems
      have "dedup_loop E fz thr L (su1, st1, out @ [it]) = Inr (su', st', res)"
        by (simp add: dedup_loop_Cons)
      from Cons.IH[OF this] obtain ks where ks: "res = (out @ [it]) @ ks" "subseq ks L"
        "\<forall>out'. dedup_loop E fz thr ks (su1, st1, out') = Inr (su', st', out' @ ks)"
        by blast
      have "\<forall>out'. dedup_loop E fz thr (it # ks) (su, st, out') = Inr (su', st', out' @ it # ks)"
        using Inr Some r ks(3) by (simp add: dedup_loop_Cons)
      with ks(1,2) show ?thesis by (intro exI[of _ "it # ks"]) simp
    qed
  qed
qed

lemma dedup_items_Inr:
  "dedup_items E L fz thr = Inr out \<longleftrightarrow>
   (\<exists>su st. dedup_loop E fz thr L ({}, [], []) = Inr (su, st, out))"
  by (auto simp: dedup_items_def split: sum.splits)

text \<open>The state of the loop is determined by the items kept so far.\<close>

lemma remember_tracks:
  assumes "dedup_verdict E fz thr (urls_of kept) (tkeys_of E kept) it = Inr (Some k)"
  shows "remember k (urls_of kept, tkeys_of E kept) = (urls_of (kept @ [it]), tkeys_of E (kept @ [it]))"
  using assms
  by (auto simp: dedup_verdict_def remember_def urls_of_def tkeys_of_def
      split: sum.splits if_splits)

lemma dedup_loop_tracks:
  "dedup_loop E fz thr L (urls_of kept, tkeys_of E kept, kept) = Inr (su', st', res) \<Longrightarrow>
   su' = urls_of res \<and> st' = tkeys_of E res"
proof (induction L arbitrary: kept)
  case Nil
  then show ?case by auto
next
  case (Cons it L)
  show ?case
  proof (cases "dedup_verdict E fz thr (urls_of kept) (tkeys_of E kept) it")
    case (Inl e)
    with Cons.prems show ?thesis by (simp add: dedup_loop_Cons)
  next
    case (Inr v)
    show ?thesis
    proof (cases v)
      case None
      with Inr Cons.prems Cons.IH show ?thesis by (simp add: dedup_loop_Cons)
    next
      case (Some k)
      with Inr Cons.prems Cons.IH[of "kept @ [it]"] remember_tracks[of E fz thr kept it k]
      show ?thesis by (simp add: dedup_loop_Cons)
    qed
  qed
qed

lemma dedup_loop_init_tracks:
  assumes "dedup_loop E fz thr L ({}, [], []) = Inr (su, st, res)"
  shows "su = urls_of res \<and> st = tkeys_of E res"
proof -
  have "({}, [], []) = (urls_of [], tkeys_of E [], [])"
    by (simp add: urls_of_def tkeys_of_def)
  with assms dedup_loop_tracks[of E fz thr L "[]" su st res] show ?thesis by simp
qed

lemma fuzzy_dup_single:
  "fuzzy_dup E fz thr t [t'] =
     (fz \<and> (case fuzz E of None \<Rightarrow> False | Some score \<Rightarrow> of_int thr \<le> score t t'))"
  by (simp add: fuzzy_dup_def split: option.splits)

lemma fuzzy_dup_iff:
  "fuzzy_dup E fz thr t ts = (\<exists>t'\<in>set ts. fuzzy_dup E fz thr t [t'])"
  by (auto simp: fuzzy_dup_def list_ex_iff split: option.splits)

text \<open>An item is dropped exactly when it is a duplicate of an item kept before it.\<close>

lemma verdict_drop_iff:
  assumes "dedup_verdict E fz thr (urls_of kept) (tkeys_of E kept) x = Inr v"
  shows "(v = None) = (\<exists>y\<in>set kept. duplicate_of E fz thr y x)"
proof -
  have m: "(t \<in> set (tkeys_of E kept)) = (t \<noteq> [] \<and> (\<exists>y\<in>set kept. tkey_of E y = Inr t))" for t
    by (induction kept) (auto simp: tkeys_of_def split: sum.splits if_splits)
  have f: "fuzzy_dup E fz thr t (tkeys_of E kept) =
      (\<exists>y\<in>set kept. \<exists>t'. tkey_of E y = Inr t' \<and> t' \<noteq> [] \<and> fuzzy_dup E fz thr t [t'])" for t
    by (subst fuzzy_dup_iff) (use m in blast)
  have u: "(u \<in> urls_of kept) = (u \<noteq> [] \<and> (\<exists>y\<in>set kept. url_of y = Inr u))" for u
    by (auto simp: urls_of_def)
  show ?thesis
  proof (cases "url_of x")
    case (Inl e)
    with assms show ?thesis by (simp add: dedup_verdict_def)
  next
    case url: (Inr url)
    show ?thesis
    proof (cases "url \<noteq> [] \<and> url \<in> urls_of kept")
      case True
      with assms url have "v = None" by (auto simp: dedup_verdict_def)
      moreover from True u obtain y where "y \<in> set kept" "url_of y = Inr url" by blast
      with True url have "\<exists>y\<in>set kept. duplicate_of E fz thr y x"
        by (auto simp: duplicate_of_def same_url_def)
      ultimately show ?thesis by simp
    next
      case nu: False
      then have nurl: "\<not> same_url y x" if "y \<in> set kept" for y
        using url u that by (auto simp: same_url_def)
      show ?thesis
      proof (cases "tkey_of E x")
        case (Inl e)
        with assms url nu show ?thesis by (auto simp: dedup_verdict_def)
      next
        case tk: (Inr tkey)
        have "(v = None) =
            ((tkey \<noteq> [] \<and> tkey \<in> set (tkeys_of E kept)) \<or> fuzzy_dup E fz thr tkey (tkeys_of E kept))"
          using assms url nu tk by (auto simp: dedup_verdict_def split: if_splits)
        also have "\<dots> = (\<exists>y\<in>set kept. \<exists>t. tkey_of E y = Inr t \<and> t \<noteq> [] \<and>
            (tkey = t \<or> fuzzy_dup E fz thr tkey [t]))"
          unfolding m f by blast
        also have "\<dots> = (\<exists>y\<in>set kept. same_title E y x \<or> similar_title E fz thr y x)"
        proof -
          have "(\<exists>t. tkey_of E y = Inr t \<and> t \<noteq> [] \<and> (tkey = t \<or> fuzzy_dup E fz thr tkey [t])) =
                (same_title E y x \<or> similar_title E fz thr y x)" for y
            by (cases "tkey_of E y")
               (auto simp: same_title_def similar_title_def tk fuzzy_dup_single split: option.splits)
          then show ?thesis by simp
        qed
        also have "\<dots> = (\<exists>y\<in>set kept. duplicate_of E fz thr y x)"
          using nurl by (auto simp: duplicate_of_def)
        finally show ?thesis .
      qed
    qed
  qed
qed

lemma dedup_items_snoc:
  assumes "dedup_items E (xs @ [x]) fz thr = Inr r"
  shows "\<exists>kept. dedup_items E xs fz thr = Inr kept \<and>
           r = (if \<exists>y\<in>set kept. duplicate_of E fz thr y x then kept else kept @ [x])"
proof -
  from assms obtain su st where l: "dedup_loop E fz thr (xs @ [x]) ({}, [], []) = Inr (su, st, r)"
    by (auto simp: dedup_items_Inr)
  then obtain s1 where s1: "dedup_loop E fz thr xs ({}, [], []) = Inr s1"
      and l2: "dedup_loop E fz thr [x] s1 = Inr (su, st, r)"
    by (auto simp: dedup_loop_append split: sum.splits)
  obtain su1 st1 kept where s1_eq: "s1 = (su1, st1, kept)" by (cases s1)
  from s1 s1_eq dedup_loop_init_tracks[of E fz thr xs su1 st1 kept]
  have tr: "su1 = urls_of kept" "st1 = tkeys_of E kept" by simp_all
  from l2 obtain v where v: "dedup_verdict E fz thr (urls_of kept) (tkeys_of E kept) x = Inr v"
    unfolding s1_eq tr
    by (cases "dedup_verdict E fz thr (urls_of kept) (tkeys_of E kept) x")
       (simp_all add: dedup_loop_Cons)
  from verdict_drop_iff[OF v]
  have d: "(v = None) = (\<exists>y\<in>set kept. duplicate_of E fz thr y x)" .
  have "r = (if v = None then kept else kept @ [x])"
    using l2 v unfolding s1_eq tr by (cases v) (simp_all add: dedup_loop_Cons)
  moreover have "dedup_items E xs fz thr = Inr kept"
    using s1 s1_eq by (simp add: dedup_items_def)
  ultimately show ?thesis using d by simp
qed

lemma dedup_items_prefix:
  assumes "dedup_items E (xs @ ys) fz thr = Inr out"
  shows "\<exists>kept. dedup_items E xs fz thr = Inr kept \<and> prefix kept out"
proof -
  from assms obtain su st where l: "dedup_loop E fz thr (xs @ ys) ({}, [], []) = Inr (su, st, out)"
    by (auto simp: dedup_items_Inr)
  then obtain s1 where s1: "dedup_loop E fz thr xs ({}, [], []) = Inr s1"
      and l2: "dedup_loop E fz thr ys s1 = Inr (su, st, out)"
    by (auto simp: dedup_loop_append split: sum.splits)
  obtain su1 st1 kept where s1_eq: "s1 = (su1, st1, kept)" by (cases s1)
  from dedup_loop_out[OF l2[unfolded s1_eq]] have "prefix kept out"
    by (auto simp: prefix_def)
  moreover have "dedup_items E xs fz thr = Inr kept"
    using s1 s1_eq by (simp add: dedup_items_def)
  ultimately show ?thesis by blast
qed

lemma dedup_demo:
  "dedup_items demo_env [item_a, item_b, item_c, item_d] True 90 = Inr [item_a, item_d]"
  by (simp add: dedup_eval item_a_def item_b_def item_c_def item_d_def demo_env_def)

lemma dedup_demo_kept:
  "dedup_items demo_env [item_a, item_d] True 90 = Inr [item_a, item_d]"
  by (simp add: dedup_eval item_a_def item_d_def demo_env_def)

lemma dedup_demo_first:
  "dedup_items demo_env [item_a] True 90 = Inr [item_a]"
  by (simp add: dedup_eval item_a_def demo_env_def)

lemma dedup_demo_prefix:
  "dedup_items demo_env [item_a, item_b, item_c] True 90 = Inr [item_a]"
  by (simp add: dedup_eval item_a_def item_b_def item_c_def demo_env_def)


section \<open>Deduplication: the claims\<close>

text \<open>
  C3. \<open>dedup_items\<close> is idempotent: for every list of items and every fixed setting of
  \<open>enable_fuzzy\<close> and \<open>fuzzy_threshold\<close>, deduplicating the result of \<open>dedup_items\<close>
  again gives that result; a call that raises raises the same exception when nested.
\<close>

theorem dedup_items_idempotent:
  "(case dedup_items E L fz thr of Inl e \<Rightarrow> Inl e | Inr out \<Rightarrow> dedup_items E out fz thr) =
   dedup_items E L fz thr"
proof (cases "dedup_loop E fz thr L ({}, [], [])")
  case (Inl e)
  then show ?thesis by (simp add: dedup_items_def)
next
  case (Inr s)
  obtain su st res where s: "s = (su, st, res)" by (cases s)
  from dedup_loop_out[OF Inr[unfolded s]] obtain kept where
    k: "res = [] @ kept"
       "\<forall>out'. dedup_loop E fz thr kept ({}, [], out') = Inr (su, st, out' @ kept)"
    by blast
  then have "dedup_loop E fz thr res ({}, [], []) = Inr (su, st, res)" by simp
  with Inr s show ?thesis by (simp add: dedup_items_def)
qed

theorem dedup_items_idempotent_witness:
  "dedup_items demo_env [item_a, item_b, item_c, item_d] True 90 = Inr [item_a, item_d] \<and>
   dedup_items demo_env [item_a, item_d] True 90 = Inr [item_a, item_d]"
  using dedup_items_idempotent [where E = demo_env and L = "[item_a, item_b, item_c, item_d]" and fz = True and thr = 90]
  by (simp add: dedup_demo)

text \<open>
  C4, as amended. For two items, the first of which is processed without an exception
  (its \<open>url\<close> and \<open>title\<close> are strings or empty values): if both have the same URL
  and it is non-empty after trimming, \<open>dedup_items\<close> returns only the first item;
  likewise if the second item's \<open>url\<close> is a string or an empty value and the two
  title keys are equal and non-empty.
\<close>

theorem dedup_items_pair:
  assumes "url_of a = Inr ua" and "tkey_of E a = Inr ta"
  shows "(url_of b = Inr ua \<and> ua \<noteq> [] \<longrightarrow> dedup_items E [a, b] fz thr = Inr [a]) \<and>
         (url_of b = Inr ub \<and> tkey_of E b = Inr ta \<and> ta \<noteq> [] \<longrightarrow>
            dedup_items E [a, b] fz thr = Inr [a])"
proof -
  have first: "dedup_verdict E fz thr {} [] a = Inr (Some (ua, ta))"
    using assms by (simp add: dedup_verdict_def fuzzy_dup_def split: option.splits)
  have "dedup_items E [a, b] fz thr = Inr [a]"
    if "dedup_verdict E fz thr (fst (remember (ua, ta) ({}, []))) (snd (remember (ua, ta) ({}, []))) b = Inr None"
    using first that by (simp add: dedup_items_def dedup_loop_Cons)
  moreover have "dedup_verdict E fz thr (fst (remember (ua, ta) ({}, [])))
      (snd (remember (ua, ta) ({}, []))) b = Inr None" if "url_of b = Inr ua" "ua \<noteq> []"
    using that by (simp add: dedup_verdict_def remember_def)
  moreover have "dedup_verdict E fz thr (fst (remember (ua, ta) ({}, [])))
      (snd (remember (ua, ta) ({}, []))) b = Inr None"
    if "url_of b = Inr ub" "tkey_of E b = Inr ta" "ta \<noteq> []"
    using that by (simp add: dedup_verdict_def remember_def)
  ultimately show ?thesis by blast
qed

theorem dedup_items_pair_witness:
  "url_of item_a = Inr ''http://x/1'' \<and> tkey_of demo_env item_a = Inr ''Alpha'' \<and>
   url_of item_b = Inr ''http://x/1'' \<and>
   dedup_items demo_env [item_a, item_b] False 90 = Inr [item_a] \<and>
   url_of item_c = Inr ''http://x/3'' \<and> tkey_of demo_env item_c = Inr ''Alpha'' \<and>
   dedup_items demo_env [item_a, item_c] False 90 = Inr [item_a]"
proof -
  have a: "url_of item_a = Inr ''http://x/1''" "tkey_of demo_env item_a = Inr ''Alpha''"
    by (simp_all add: url_of_def tkey_of_def eval_defs item_a_def demo_env_def)
  have b: "url_of item_b = Inr ''http://x/1''"
    by (simp add: url_of_def eval_defs item_b_def)
  have c: "url_of item_c = Inr ''http://x/3''" "tkey_of demo_env item_c = Inr ''Alpha''"
    by (simp_all add: url_of_def tkey_of_def eval_defs item_c_def demo_env_def)
  from dedup_items_pair [OF a, where b = item_b and ub = "''http://x/1''" and fz = False and thr = 90] b
  have "dedup_items demo_env [item_a, item_b] False 90 = Inr [item_a]" by simp
  moreover from dedup_items_pair [OF a, where b = item_c and ub = "''http://x/3''" and fz = False and thr = 90] c
  have "dedup_items demo_env [item_a, item_c] False 90 = Inr [item_a]" by simp
  ultimately show ?thesis using a b c by simp
qed

text \<open>
  C4 as stated fails where the shared URL is only whitespace, and where the two titles
  are equal because both normalise to the empty string: both items are returned.
\<close>

theorem dedup_items_pair_counterexample:
  "dedup_items demo_env [blank_url_a, blank_url_b] False 90 = Inr [blank_url_a, blank_url_b] \<and>
   dedup_items demo_env [untitled_a, untitled_b] False 90 = Inr [untitled_a, untitled_b]"
  by (simp add: dedup_eval blank_url_a_def blank_url_b_def untitled_a_def untitled_b_def demo_env_def)

text \<open>
  C5. When \<open>dedup_items\<close> returns, its result is a subsequence of the input (so it is
  no longer, keeps the scan order and holds input items unchanged), and the first
  occurrence wins: for every item \<open>x\<close> of the input, with \<open>kept\<close> the result for the
  items before it, the result for the items up to and including \<open>x\<close> is \<open>kept\<close> alone
  if \<open>x\<close> duplicates an item of \<open>kept\<close>, and \<open>kept\<close> followed by \<open>x\<close> otherwise; and
  that result is the beginning of the whole result, so no later item changes it.
\<close>

theorem dedup_items_subsequence:
  assumes "dedup_items E L fz thr = Inr out"
  shows "subseq out L \<and> length out \<le> length L \<and>
         (\<forall>xs x ys. L = xs @ x # ys \<longrightarrow>
            (\<exists>kept. dedup_items E xs fz thr = Inr kept \<and>
               dedup_items E (xs @ [x]) fz thr =
                 Inr (if \<exists>y\<in>set kept. duplicate_of E fz thr y x then kept else kept @ [x]) \<and>
               prefix (if \<exists>y\<in>set kept. duplicate_of E fz thr y x then kept else kept @ [x]) out))"
proof (intro conjI allI impI)
  from assms obtain su st where l: "dedup_loop E fz thr L ({}, [], []) = Inr (su, st, out)"
    by (auto simp: dedup_items_Inr)
  from dedup_loop_out[OF l] show s: "subseq out L" by auto
  then show "length out \<le> length L" by (rule list_emb_length)
next
  fix xs x ys assume L: "L = xs @ x # ys"
  then have "dedup_items E ((xs @ [x]) @ ys) fz thr = Inr out" using assms by simp
  from dedup_items_prefix[OF this] obtain r where
    r: "dedup_items E (xs @ [x]) fz thr = Inr r" "prefix r out"
    by blast
  from dedup_items_snoc[OF r(1)] obtain kept where
    k: "dedup_items E xs fz thr = Inr kept"
       "r = (if \<exists>y\<in>set kept. duplicate_of E fz thr y x then kept else kept @ [x])"
    by blast
  from r have
    "dedup_items E (xs @ [x]) fz thr =
       Inr (if \<exists>y\<in>set kept. duplicate_of E fz thr y x then kept else kept @ [x])"
    "prefix (if \<exists>y\<in>set kept. duplicate_of E fz thr y x then kept else kept @ [x]) out"
    unfolding k(2) by simp_all
  with k(1)
  show "\<exists>kept. dedup_items E xs fz thr = Inr kept \<and>
          dedup_items E (xs @ [x]) fz thr =
            Inr (if \<exists>y\<in>set kept. duplicate_of E fz thr y x then kept else kept @ [x]) \<and>
          prefix (if \<exists>y\<in>set kept. duplicate_of E fz thr y x then kept else kept @ [x]) out"
    by blast
qed

theorem dedup_items_subsequence_witness:
  "dedup_items demo_env [item_a, item_b, item_c, item_d] True 90 = Inr [item_a, item_d] \<and>
   subseq [item_a, item_d] [item_a, item_b, item_c, item_d] \<and>
   length [item_a, item_d] \<le> length [item_a, item_b, item_c, item_d] \<and>
   duplicate_of demo_env True 90 item_a item_b \<and>
   dedup_items demo_env ([item_a] @ [item_b]) True 90 = Inr [item_a] \<and>
   prefix [item_a] [item_a, item_d] \<and>
   \<not> duplicate_of demo_env True 90 item_a item_d \<and>
   dedup_items demo_env ([item_a, item_b, item_c] @ [item_d]) True 90 = Inr ([item_a] @ [item_d])"
proof -
  have d: "dedup_items demo_env [item_a, item_b, item_c, item_d] True 90 = Inr [item_a, item_d]"
    by (rule dedup_demo)
  have dup: "duplicate_of demo_env True 90 item_a item_b"
    by (simp add: duplicate_of_def same_url_def url_of_def eval_defs item_a_def item_b_def)
  have ndup: "\<not> duplicate_of demo_env True 90 item_a item_d"
    by (simp add: duplicate_of_def same_url_def same_title_def similar_title_def url_of_def
        tkey_of_def eval_defs item_a_def item_d_def demo_env_def)
  note main = dedup_items_subsequence [OF d]
  from main have s: "subseq [item_a, item_d] [item_a, item_b, item_c, item_d]"
    by (rule conjunct1)
  from main have all: "\<forall>xs x ys. [item_a, item_b, item_c, item_d] = xs @ x # ys \<longrightarrow>
      (\<exists>kept. dedup_items demo_env xs True 90 = Inr kept \<and>
         dedup_items demo_env (xs @ [x]) True 90 =
           Inr (if \<exists>y\<in>set kept. duplicate_of demo_env True 90 y x then kept else kept @ [x]) \<and>
         prefix (if \<exists>y\<in>set kept. duplicate_of demo_env True 90 y x then kept else kept @ [x])
           [item_a, item_d])"
    by (rule conjunct2 [THEN conjunct2])
  have e1: "[item_a, item_b, item_c, item_d] = [item_a] @ item_b # [item_c, item_d]" by simp
  from all [rule_format, OF e1] obtain k1 where
    k1: "dedup_items demo_env [item_a] True 90 = Inr k1"
        "dedup_items demo_env ([item_a] @ [item_b]) True 90 =
           Inr (if \<exists>y\<in>set k1. duplicate_of demo_env True 90 y item_b then k1 else k1 @ [item_b])"
        "prefix (if \<exists>y\<in>set k1. duplicate_of demo_env True 90 y item_b then k1 else k1 @ [item_b])
           [item_a, item_d]"
    by blast
  from k1(1) have "k1 = [item_a]" by (simp add: dedup_demo_first)
  with k1(2,3) dup have b: "dedup_items demo_env ([item_a] @ [item_b]) True 90 = Inr [item_a]"
      "prefix [item_a] [item_a, item_d]"
    by simp_all
  have e2: "[item_a, item_b, item_c, item_d] = [item_a, item_b, item_c] @ item_d # []" by simp
  from all [rule_format, OF e2] obtain k2 where
    k2: "dedup_items demo_env [item_a, item_b, item_c] True 90 = Inr k2"
        "dedup_items demo_env ([item_a, item_b, item_c] @ [item_d]) True 90 =
           Inr (if \<exists>y\<in>set k2. duplicate_of demo_env True 90 y item_d then k2 else k2 @ [item_d])"
    by blast
  from k2(1) have "k2 = [item_a]" by (simp add: dedup_demo_prefix)
  with k2(2) ndup
  have c: "dedup_items demo_env ([item_a, item_b, item_c] @ [item_d]) True 90 = Inr ([item_a] @ [item_d])"
    by simp
  from d s dup ndup b c show ?thesis by simp
qed


section \<open>Reshaping: the loop\<close>

lemmas reshape_eval =
  custom_to_results_def custom_to_results_loop.simps rank_or_next_def str_isdigit_def
  isdigit_def isdecimal_def int_of_str_def valid_int_body_def int_max_str_digits_def eval_defs

lemma bucket_of_upd_same [simp]: "bucket_of (r(sid \<mapsto> b)) sid = b"
  by (simp add: bucket_of_def)

lemma bucket_of_upd_other [simp]: "s \<noteq> sid \<Longrightarrow> bucket_of (r(sid \<mapsto> b)) s = bucket_of r s"
  by (simp add: bucket_of_def)

lemma custom_to_results_loop_Cons:
  "custom_to_results_loop E (it # its) st =
     (case ctr_step E it st of Inl e \<Rightarrow> Inl e | Inr st' \<Rightarrow> custom_to_results_loop E its st')"
proof -
  obtain r n where st: "st = (r, n)" by (cases st)
  show ?thesis unfolding st
    by (simp add: custom_to_results_loop.simps ctr_step_def register_def add_rank_def sid_of_def
        sname_of_def bucket_of_def Let_def split: sum.splits)
qed

lemma custom_to_results_loop_append:
  "custom_to_results_loop E (xs @ ys) st =
     (case custom_to_results_loop E xs st of
        Inl e \<Rightarrow> Inl e
      | Inr st' \<Rightarrow> custom_to_results_loop E ys st')"
  by (induction xs arbitrary: st) (simp_all add: custom_to_results_loop_Cons split: sum.splits)

text \<open>A source id that has a bucket keeps one, and every item gives its own a bucket.\<close>

lemma ctr_step_dom:
  assumes "ctr_step E it (r, n) = Inr (r', n')"
  shows "r' (sid_of E it) \<noteq> None \<and> (\<forall>s. r s \<noteq> None \<longrightarrow> r' s \<noteq> None)"
  using assms
  by (auto simp: ctr_step_def register_def add_rank_def Let_def split: sum.splits if_splits)

lemma custom_to_results_loop_dom:
  "custom_to_results_loop E ys (r, n) = Inr (r', n') \<Longrightarrow> r s \<noteq> None \<Longrightarrow> r' s \<noteq> None"
proof (induction ys arbitrary: r n)
  case Nil
  then show ?case by simp
next
  case (Cons y ys)
  from Cons.prems(1) obtain r1 n1 where s: "ctr_step E y (r, n) = Inr (r1, n1)"
    and l: "custom_to_results_loop E ys (r1, n1) = Inr (r', n')"
    by (auto simp: custom_to_results_loop_Cons split: sum.splits)
  from ctr_step_dom[OF s] Cons.prems(2) have "r1 s \<noteq> None" by blast
  from Cons.IH[OF l this] show ?case .
qed

text \<open>
  A round of the loop for an item of the same source id undoes the mark; a round for an
  item of another source id commutes with it.
\<close>

lemma register_mark_same:
  "sid_of E y = sid \<Longrightarrow> register E y (mark sid a False (r, n)) = register E y (r, n)"
  by (simp add: register_def mark_def)

lemma ctr_step_mark_same:
  "sid_of E y = sid \<Longrightarrow> ctr_step E y (mark sid a False (r, n)) = ctr_step E y (r, n)"
  by (simp add: ctr_step_def register_mark_same split: sum.splits)

lemma register_mark_other:
  "sid_of E y \<noteq> sid \<Longrightarrow>
   register E y (mark sid a False (r, n)) = mark sid a False (register E y (r, n))"
  by (auto simp: register_def mark_def fun_upd_twist)

lemma add_rank_mark_other:
  "sid_of E y \<noteq> sid \<Longrightarrow>
   add_rank E y t (mark sid a False (r, n)) = map_sum id (mark sid a False) (add_rank E y t (r, n))"
  by (auto simp: add_rank_def mark_def Let_def fun_upd_twist split: sum.splits)

lemma ctr_step_mark_other:
  assumes "sid_of E y \<noteq> sid"
  shows "ctr_step E y (mark sid a False (r, n)) = map_sum id (mark sid a False) (ctr_step E y (r, n))"
proof -
  obtain r1 n1 where reg: "register E y (r, n) = (r1, n1)" by (cases "register E y (r, n)")
  show ?thesis
    using assms
    by (simp add: ctr_step_def register_mark_other reg add_rank_mark_other split: sum.splits)
qed

lemma mark_present: "r sid \<noteq> None \<Longrightarrow> mark sid a True (r, n) = (r, n)"
  by (auto simp: mark_def bucket_of_def)

lemma custom_to_results_loop_mark:
  "custom_to_results_loop E ys (mark sid a False (r, n)) =
   map_sum id (mark sid a (sid \<in> sid_of E ` set ys)) (custom_to_results_loop E ys (r, n))"
proof (induction ys arbitrary: r n)
  case Nil
  show ?case by simp
next
  case (Cons y ys)
  show ?case
  proof (cases "sid_of E y = sid")
    case True
    have A: "custom_to_results_loop E (y # ys) (mark sid a False (r, n)) =
        custom_to_results_loop E (y # ys) (r, n)"
      by (simp add: custom_to_results_loop_Cons ctr_step_mark_same[OF True])
    have C: "(sid \<in> sid_of E ` set (y # ys)) = True" using True by auto
    have B: "map_sum id (mark sid a True) (custom_to_results_loop E (y # ys) (r, n)) =
        custom_to_results_loop E (y # ys) (r, n)"
    proof (cases "custom_to_results_loop E (y # ys) (r, n)")
      case (Inl e)
      then show ?thesis by simp
    next
      case (Inr st)
      obtain r' n' where st: "st = (r', n')" by (cases st)
      from Inr st obtain r1 n1 where s: "ctr_step E y (r, n) = Inr (r1, n1)"
        and l: "custom_to_results_loop E ys (r1, n1) = Inr (r', n')"
        by (auto simp: custom_to_results_loop_Cons split: sum.splits)
      from ctr_step_dom[OF s] True have "r1 sid \<noteq> None" by simp
      from custom_to_results_loop_dom[OF l this] have "r' sid \<noteq> None" .
      then show ?thesis using Inr st by (simp add: mark_present)
    qed
    show ?thesis unfolding A C B by (rule refl)
  next
    case False
    show ?thesis
    proof (cases "ctr_step E y (r, n)")
      case (Inl e)
      then show ?thesis using False by (simp add: custom_to_results_loop_Cons ctr_step_mark_other)
    next
      case (Inr st)
      obtain r1 n1 where st: "st = (r1, n1)" by (cases st)
      have "custom_to_results_loop E (y # ys) (mark sid a False (r, n)) =
            custom_to_results_loop E ys (mark sid a False (r1, n1))"
        using False Inr st by (simp add: custom_to_results_loop_Cons ctr_step_mark_other)
      also have "\<dots> = map_sum id (mark sid a (sid \<in> sid_of E ` set ys))
          (custom_to_results_loop E ys (r1, n1))"
        by (rule Cons.IH)
      also have "\<dots> = map_sum id (mark sid a (sid \<in> sid_of E ` set (y # ys)))
          (custom_to_results_loop E (y # ys) (r, n))"
        using False Inr st by (auto simp: custom_to_results_loop_Cons)
      finally show ?thesis .
    qed
  qed
qed

section \<open>Reshaping: the rank that is appended\<close>

lemma rank_or_next_None: "rank_or_next E PNone ranks = Inr (int (length ranks) + 1)"
  by (simp add: rank_or_next_def)

lemma digit_char_decimal: "d < 10 \<Longrightarrow> isdecimal (digit_char d)"
proof -
  assume "d < 10"
  then have "d \<in> {0, 1, 2, 3, 4, 5, 6, 7, 8, 9}" by auto
  then show ?thesis by (auto simp: isdecimal_def digit_char_def)
qed

lemma nat_str_decimal: "nat_str n \<noteq> [] \<and> list_all isdecimal (nat_str n)"
proof (induction n rule: nat_str.induct)
  case (1 n)
  show ?case
  proof (cases "n < 10")
    case True
    then show ?thesis by (subst (1 2) nat_str.simps) (simp add: digit_char_decimal)
  next
    case False
    with 1 show ?thesis by (subst (1 2) nat_str.simps) (simp add: digit_char_decimal)
  qed
qed

lemma str_isdigit_int_str: "str_isdigit (int_str n) = (0 \<le> n)"
proof (cases "0 \<le> n")
  case True
  have "list_all isdigit (nat_str (nat n))"
    using nat_str_decimal[of "nat n"] by (auto simp: list_all_iff isdigit_def)
  with True nat_str_decimal[of "nat n"] show ?thesis by (simp add: str_isdigit_def int_str_def)
next
  case False
  then show ?thesis by (simp add: str_isdigit_def int_str_def isdigit_def isdecimal_def)
qed

text \<open>
  An integer rank is appended when it is not negative; an absent rank and a negative
  integer give the next number.
\<close>

lemma rank_or_next_int:
  "rank_or_next E (PInt n) ranks = Inr (if 0 \<le> n then n else int (length ranks) + 1)"
  by (simp add: rank_or_next_def py_str_def str_isdigit_int_str)

lemma isdigit_not_space: "isdigit c \<Longrightarrow> \<not> isspace c"
  by (auto simp: isdigit_def isdecimal_def isspace_def)

lemma isdigit_not_sign: "isdigit c \<Longrightarrow> c \<noteq> CHR ''-'' \<and> c \<noteq> CHR ''+'' \<and> c \<noteq> CHR ''_''"
  by (auto simp: isdigit_def isdecimal_def)

lemma strip_digits: "str_isdigit s \<Longrightarrow> strip s = s"
proof -
  assume d: "str_isdigit s"
  then have ne: "s \<noteq> []" and all: "\<forall>c\<in>set s. isdigit c"
    by (auto simp: str_isdigit_def list_all_iff)
  from ne all have "\<not> isspace (hd s)" by (simp add: isdigit_not_space)
  with ne have a: "dropWhile isspace s = s" by (cases s) auto
  from ne all have "\<not> isspace (hd (rev s))" by (simp add: hd_rev isdigit_not_space)
  with ne have "dropWhile isspace (rev s) = rev s" by (cases "rev s") auto
  with a show ?thesis by (simp add: strip_def)
qed

lemma decimal_no_double_underscore: "list_all isdecimal s \<Longrightarrow> no_double_underscore s"
  by (induction s rule: no_double_underscore.induct) (auto simp: isdecimal_def)

text \<open>
  A rank string of decimal characters, no longer than the interpreter's limit, is
  appended as its number; a string that does not pass \<open>isdigit\<close> gives the next
  number; a string that passes \<open>isdigit\<close> with a character that is not decimal, or
  with more decimal characters than the limit, raises.
\<close>

lemma rank_or_next_decimal:
  assumes "s \<noteq> []" and "list_all isdecimal s" and "length s \<le> int_max_str_digits"
  shows "rank_or_next E (PStr s) ranks = Inr (int (decimal_value s))"
proof -
  from assms have d: "str_isdigit s" by (auto simp: str_isdigit_def isdigit_def list_all_iff)
  from assms have h: "isdecimal (hd s)" "isdecimal (last s)" by (auto simp: list_all_iff)
  then have sg: "hd s \<noteq> CHR ''-''" "hd s \<noteq> CHR ''+''" by (auto simp: isdecimal_def)
  from assms(2) have f: "filter (\<lambda>c. c \<noteq> CHR ''_'') s = s"
    by (auto simp: list_all_iff isdecimal_def intro!: filter_True)
  from assms(2) have g: "filter isdecimal s = s"
    by (auto simp: list_all_iff intro!: filter_True)
  from assms h have "valid_int_body s"
    by (auto simp: valid_int_body_def decimal_no_double_underscore list_all_iff)
  with d sg f g assms(3) show ?thesis
    by (simp add: rank_or_next_def py_str_def int_of_str_def strip_digits Let_def)
qed

lemma rank_or_next_not_digits:
  "\<not> str_isdigit s \<Longrightarrow> rank_or_next E (PStr s) ranks = Inr (int (length ranks) + 1)"
  by (simp add: rank_or_next_def py_str_def)

lemma rank_or_next_too_long:
  assumes "str_isdigit s" and "list_all isdecimal s" and "int_max_str_digits < length s"
  shows "rank_or_next E (PStr s) ranks = Inl ValueError"
proof -
  from assms(1) have ne: "s \<noteq> []" and all: "\<forall>c\<in>set s. isdigit c"
    by (auto simp: str_isdigit_def list_all_iff)
  from ne all have sg: "hd s \<noteq> CHR ''-''" "hd s \<noteq> CHR ''+''" by (auto simp: isdigit_not_sign)
  from assms(2) have g: "filter isdecimal s = s"
    by (auto simp: list_all_iff intro!: filter_True)
  with assms(1,3) sg show ?thesis
    by (simp add: rank_or_next_def py_str_def int_of_str_def strip_digits Let_def)
qed

lemma rank_or_next_raises:
  assumes "str_isdigit s" and "\<not> list_all isdecimal s"
  shows "rank_or_next E (PStr s) ranks = Inl ValueError"
proof -
  from assms(1) have ne: "s \<noteq> []" and all: "\<forall>c\<in>set s. isdigit c"
    by (auto simp: str_isdigit_def list_all_iff)
  from ne all have sg: "hd s \<noteq> CHR ''-''" "hd s \<noteq> CHR ''+''" by (auto simp: isdigit_not_sign)
  from assms(2) obtain c where c: "c \<in> set s" "\<not> isdecimal c" by (auto simp: list_all_iff)
  with all have "c \<noteq> CHR ''_''" by (auto simp: isdigit_not_sign)
  with c have "\<not> list_all (\<lambda>c. isdecimal c \<or> c = CHR ''_'') s" by (auto simp: list_all_iff)
  then have "\<not> valid_int_body s" by (simp add: valid_int_body_def)
  with assms(1) sg show ?thesis
    by (simp add: rank_or_next_def py_str_def int_of_str_def strip_digits Let_def)
qed

lemma custom_to_results_scenario:
  "map_option e_ranks
     (bucket_of (fst (projr (custom_to_results demo_env [scenario_item, scenario_item]))) ''custom:s1'' ''A'')
   = Some [1, 2]"
  by (simp add: reshape_eval bucket_of_def scenario_item_def demo_env_def)


section \<open>Reshaping: the claims\<close>

text \<open>
  C9. The rank appended for an item is its own rank when that is a non-negative
  integer-like value, and otherwise one more than the length of the entry's rank list.
  The scenario of the claim holds (\<open>custom_to_results_scenario\<close>), and so does the rule
  for absent ranks, integers and strings of decimal characters (\<open>rank_or_next_None\<close>,
  \<open>rank_or_next_int\<close>, \<open>rank_or_next_decimal\<close>, \<open>rank_or_next_not_digits\<close>). But a
  rank string with a superscript digit passes \<open>str(rank).isdigit()\<close> and is then
  refused by \<open>int(rank)\<close> (\<open>rank_or_next_raises\<close>): the call raises \<open>ValueError\<close>
  instead of numbering the item.
\<close>

theorem custom_to_results_superscript_rank:
  "custom_to_results demo_env [superscript_item] = Inl ValueError"
  by (simp add: reshape_eval superscript_item_def demo_env_def)

text \<open>
  C10, as amended. An item whose title is empty after trimming adds no title entry and
  no rank, and raises nothing, but it still registers its source: the two mappings are
  those obtained without the item, except that its source id has a bucket (the one the
  other items give it, else an empty one) and that, unless a later item has the same
  source id, its source id maps to its display name.
\<close>

theorem custom_to_results_blank_title:
  assumes "py_strip (py_or (dict_get it ''title'') (PStr [])) = Inr []"
  shows "custom_to_results E (xs @ it # ys) =
         map_sum id (mark (sid_of E it) (sname_of E it) (sid_of E it \<in> sid_of E ` set ys))
           (custom_to_results E (xs @ ys))"
proof (cases "custom_to_results_loop E xs (Map.empty, Map.empty)")
  case (Inl e)
  then show ?thesis by (simp add: custom_to_results_def custom_to_results_loop_append)
next
  case (Inr st)
  obtain r n where st: "st = (r, n)" by (cases st)
  have reg: "register E it (r, n) = mark (sid_of E it) (sname_of E it) False (r, n)"
    by (simp add: register_def mark_def)
  have "custom_to_results E (xs @ it # ys) = custom_to_results_loop E ys (register E it (r, n))"
    using Inr st assms
    by (simp add: custom_to_results_def custom_to_results_loop_append custom_to_results_loop_Cons
        ctr_step_def)
  also have "\<dots> = map_sum id (mark (sid_of E it) (sname_of E it) (sid_of E it \<in> sid_of E ` set ys))
      (custom_to_results_loop E ys (r, n))"
    unfolding reg by (rule custom_to_results_loop_mark)
  also have "\<dots> = map_sum id (mark (sid_of E it) (sname_of E it) (sid_of E it \<in> sid_of E ` set ys))
      (custom_to_results E (xs @ ys))"
    using Inr st by (simp add: custom_to_results_def custom_to_results_loop_append)
  finally show ?thesis .
qed

theorem custom_to_results_blank_title_witness:
  "py_strip (py_or (dict_get blank_item ''title'') (PStr [])) = Inr [] \<and>
   custom_to_results demo_env ([scenario_item] @ blank_item # []) =
     map_sum id (mark ''custom:s1'' (PStr ''S1'') False) (custom_to_results demo_env ([scenario_item] @ []))"
proof -
  have t: "py_strip (py_or (dict_get blank_item ''title'') (PStr [])) = Inr []"
    by (simp add: eval_defs blank_item_def)
  have s: "sid_of demo_env blank_item = ''custom:s1''" "sname_of demo_env blank_item = PStr ''S1''"
    by (simp_all add: sid_of_def sname_of_def eval_defs blank_item_def)
  from custom_to_results_blank_title [OF t, where E = demo_env and xs = "[scenario_item]" and ys = "[]"]
  show ?thesis using t by (simp add: s)
qed

text \<open>
  C10 as stated fails: for the single item \<open>blank_item\<close>, whose title is one space, both
  mappings hold its source id, and without it both are empty.
\<close>

theorem custom_to_results_blank_title_counterexample:
  "fst (projr (custom_to_results demo_env [blank_item])) ''custom:s1'' \<noteq> None \<and>
   snd (projr (custom_to_results demo_env [blank_item])) ''custom:s1'' = Some (PStr ''S1'') \<and>
   fst (projr (custom_to_results demo_env [])) ''custom:s1'' = None \<and>
   snd (projr (custom_to_results demo_env [])) ''custom:s1'' = None"
  by (simp add: reshape_eval blank_item_def demo_env_def)


section \<open>Timestamps: the claim\<close>

lemma parse_ts_int: "parse_ts E (PInt n) = Inr (if n > 10 ^ 12 then n div 1000 else n)"
  by (simp add: parse_ts_def)

lemma parse_ts_finite:
  "parse_ts E (PFloat (FFin q)) = Inr (if q > 10 ^ 12 then float_ms E q else float_trunc q)"
  by (simp add: parse_ts_def)

text \<open>
  C6, as amended. \<open>parse_ts\<close> returns an integer, without raising, for every input
  other than a float that is not-a-number or infinite: a numeric input greater than
  \<open>1e12\<close> (by its value, not its magnitude) is floor-divided by 1000, any other
  numeric input is returned as integer seconds; a string gives its parsed time, or the
  current time when parsing fails; \<open>None\<close> and values of other types give the current
  time.
\<close>

theorem parse_ts_cases:
  "parse_ts E PNone = Inr (now_ts E) \<and>
   parse_ts E (PInt n) = Inr (if n > 10 ^ 12 then n div 1000 else n) \<and>
   parse_ts E (PBool b) = Inr (if b then 1 else 0) \<and>
   parse_ts E (PFloat (FFin q)) = Inr (if q > 10 ^ 12 then float_ms E q else float_trunc q) \<and>
   parse_ts E (PStr s) = Inr (case dtparse E s of Some t \<Rightarrow> t | None \<Rightarrow> now_ts E) \<and>
   parse_ts E (PList xs) = Inr (now_ts E) \<and>
   parse_ts E (PDict kvs) = Inr (now_ts E) \<and>
   (v \<noteq> PFloat FNan \<and> (\<forall>pos. v \<noteq> PFloat (FInf pos)) \<longrightarrow> (\<exists>t. parse_ts E v = Inr t))"
proof -
  have total: "\<exists>t. parse_ts E v = Inr t" if "v \<noteq> PFloat FNan" "\<forall>pos. v \<noteq> PFloat (FInf pos)"
  proof (cases v)
    case (PFloat f)
    with that show ?thesis by (cases f) (auto simp: parse_ts_def)
  next
    case (PStr s)
    then show ?thesis by (simp add: parse_ts_def split: option.splits)
  qed (simp_all add: parse_ts_def)
  have "parse_ts E (PStr s) = Inr (case dtparse E s of Some t \<Rightarrow> t | None \<Rightarrow> now_ts E)"
    by (simp add: parse_ts_def split: option.splits)
  then show ?thesis using total by (simp add: parse_ts_def)
qed

theorem parse_ts_cases_witness:
  "parse_ts demo_env PNone = Inr 1700000000 \<and>
   parse_ts demo_env (PInt 1700000000) = Inr 1700000000 \<and>
   parse_ts demo_env (PInt 1700000000000) = Inr 1700000000 \<and>
   parse_ts demo_env (PStr ''2023-11-14T22:13:20Z'') = Inr 1700000000 \<and>
   parse_ts demo_env (PStr ''not a date'') = Inr 1700000000 \<and>
   parse_ts demo_env (PList []) = Inr 1700000000 \<and>
   (\<exists>t. parse_ts demo_env (PStr ''not a date'') = Inr t)"
proof -
  note c = parse_ts_cases [where E = demo_env and v = "PStr ''not a date''"]
  have n: "now_ts demo_env = 1700000000" by (simp add: demo_env_def)
  have d: "dtparse demo_env ''2023-11-14T22:13:20Z'' = Some 1700000000"
    "dtparse demo_env ''not a date'' = None"
    by (simp_all add: demo_env_def)
  have "parse_ts demo_env PNone = Inr 1700000000" using c n by simp
  moreover have "parse_ts demo_env (PInt 1700000000) = Inr 1700000000"
    using c [where n = 1700000000] by simp
  moreover have "parse_ts demo_env (PInt 1700000000000) = Inr 1700000000"
    using c [where n = 1700000000000] by simp
  moreover have "parse_ts demo_env (PStr ''2023-11-14T22:13:20Z'') = Inr 1700000000"
    using c [where s = "''2023-11-14T22:13:20Z''"] d by simp
  moreover have "parse_ts demo_env (PStr ''not a date'') = Inr 1700000000"
    using c [where s = "''not a date''"] d n by simp
  moreover have "parse_ts demo_env (PList []) = Inr 1700000000"
    using c [where xs = "[]"] n by simp
  moreover have "\<exists>t. parse_ts demo_env (PStr ''not a date'') = Inr t"
    using c by simp
  ultimately show ?thesis by simp
qed

text \<open>
  C6 as stated fails twice: a negative number of large magnitude is not divided, and a
  float that is not-a-number makes \<open>parse_ts\<close> raise.
\<close>

theorem parse_ts_counterexample:
  "parse_ts demo_env (PInt (- 2000000000000)) = Inr (- 2000000000000) \<and>
   parse_ts demo_env (PFloat FNan) = Inl ValueError"
  by (simp add: parse_ts_def)


section \<open>The adapters: the claims\<close>

lemmas adapter_eval =
  mk_item_def parse_ts_def make_id_def safe_get_def rest_fetch_def rest_list_def rss_fetch_def
  demo_jsonpath_def eval_defs

text \<open>
  C2. Every record an adapter produces has a non-empty title and URL after
  normalisation and trimming. The adapters test the raw values and trim afterwards, so
  a title of spaces passes the test and yields a record whose title is empty: here
  for the REST adapter, on the response body \<open>{"items": [{"t": "  ", "u": "http://a/1"}]}\<close>.
\<close>

theorem rest_fetch_blank_title:
  "rest_fetch demo_env rest_source (Response 200 (Some blank_title_body)) =
     Inr [\<lparr> i_title = [], i_url = ''http://a/1'', i_ts = 1700000000, i_rank = PNone,
            i_source = PStr ''b'', i_source_key = PStr ''b'', i_id = ''b||http://a/1'' \<rparr>]"
  by (simp add: adapter_eval rest_source_def rest_cfg_def blank_title_body_def demo_env_def)

lemma timegm_published: "timegm (2023, 11, 14, 22, 13, 20, 1, 318, 0) = 1700000000"
  by (simp add: timegm_def days_from_civil_def Let_def)

text \<open>
  On a machine whose zone is UTC the items of \<open>demo_entries\<close> have the published
  instant and 0 as timestamps, and the entry without a title gives no item.
\<close>

lemma rss_fetch_demo:
  "rss_fetch demo_env demo_source (Inr demo_entries) =
     Inr [\<lparr> i_title = ''One'', i_url = ''http://f/1'', i_ts = 1700000000, i_rank = PNone,
            i_source = PStr ''feed'', i_source_key = PStr ''feed'', i_id = ''feed|One|http://f/1'' \<rparr>,
          \<lparr> i_title = ''Two'', i_url = ''http://f/2'', i_ts = 0, i_rank = PNone,
            i_source = PStr ''feed'', i_source_key = PStr ''feed'', i_id = ''feed|Two|http://f/2'' \<rparr>]"
  by (simp add: adapter_eval demo_source_def demo_entries_def demo_env_def mktime_at_def
      timegm_def days_from_civil_def)

text \<open>
  C7. For every entry the RSS adapter keeps, the item's \<open>ts\<close> is the entry's parsed
  published time converted to epoch seconds, and exactly 0 when the entry has none.
  The second half holds (the second item below). The first does not: the parsed time
  is a UTC tuple and \<open>time.mktime\<close> reads it as local time, so on a machine eight
  hours east of UTC the entry published at epoch second 1700000000 gets the
  timestamp 1699971200, 28800 seconds early.
\<close>

theorem rss_fetch_local_time:
  "rss_fetch shanghai_env demo_source (Inr demo_entries) =
     Inr [\<lparr> i_title = ''One'', i_url = ''http://f/1'', i_ts = 1699971200, i_rank = PNone,
            i_source = PStr ''feed'', i_source_key = PStr ''feed'', i_id = ''feed|One|http://f/1'' \<rparr>,
          \<lparr> i_title = ''Two'', i_url = ''http://f/2'', i_ts = 0, i_rank = PNone,
            i_source = PStr ''feed'', i_source_key = PStr ''feed'', i_id = ''feed|Two|http://f/2'' \<rparr>] \<and>
   map (map_option timegm \<circ> rss_published_parsed) demo_entries = [Some 1700000000, None, None]"
  by (simp add: adapter_eval demo_source_def demo_entries_def shanghai_env_def demo_env_def
      mktime_at_def timegm_def days_from_civil_def)


section \<open>The orchestrator: the claim\<close>

lemmas lower_defs = lower_char_def upper_chars_def lower_chars_def

text \<open>
  The items returned are those of the fetches that succeeded, in the order of the
  sources, and every exception is logged once: a failing source adds no item and
  stops no other source.
\<close>

lemma build_tasks_length:
  "build_tasks src_cfgs tasks = Inr ts \<Longrightarrow> length ts \<le> length tasks + length src_cfgs"
proof (induction src_cfgs arbitrary: tasks)
  case Nil
  then show ?case by simp
next
  case (Cons sc src_cfgs)
  show ?case
  proof (cases "build_source sc")
    case (Inl e)
    with Cons.prems show ?thesis by simp
  next
    case (Inr b)
    show ?thesis
    proof (cases b)
      case None
      with Inr Cons.prems Cons.IH[of tasks] show ?thesis by simp
    next
      case (Some s)
      with Inr Cons.prems Cons.IH[of "tasks @ [s]"] show ?thesis by simp
    qed
  qed
qed

lemma collect_result:
  "i + length results \<le> length src_cfgs \<Longrightarrow>
   \<exists>lg'. collect src_cfgs i results (merged, lg) = Inr (merged @ successes results, lg') \<and>
          map snd lg' = map snd lg @ failures results"
proof (induction results arbitrary: i merged lg)
  case Nil
  show ?case by (simp add: successes_def failures_def)
next
  case (Cons r results)
  then have i: "i < length src_cfgs" and rest: "Suc i + length results \<le> length src_cfgs"
    by simp_all
  show ?case
  proof (cases r)
    case (Inl e)
    from Cons.IH[OF rest, of merged
        "lg @ [(dict_get_default (src_cfgs ! i) ''key'' (PStr (''unknown_source_'' @ nat_str i)), e)]"]
    show ?thesis using Inl i by (auto simp: successes_def failures_def)
  next
    case (Inr xs)
    from Cons.IH[OF rest, of "merged @ xs" lg]
    show ?thesis using Inr by (auto simp: successes_def failures_def)
  qed
qed

lemma fetch_custom_all_items:
  assumes "build_tasks src_cfgs [] = Inr tasks"
  shows "\<exists>lg. fetch_custom_all W E src_cfgs =
           Inr (map to_dict (successes (map (fetch W E) tasks)), lg) \<and>
         map snd lg = failures (map (fetch W E) tasks)"
proof -
  from build_tasks_length[OF assms] have "0 + length (map (fetch W E) tasks) \<le> length src_cfgs"
    by simp
  from collect_result[OF this, of "[]" "[]"] obtain lg where
    "collect src_cfgs 0 (map (fetch W E) tasks) ([], []) = Inr (successes (map (fetch W E) tasks), lg)"
    "map snd lg = failures (map (fetch W E) tasks)"
    by auto
  then show ?thesis using assms by (simp add: fetch_custom_all_def)
qed

lemma build_source_rest: "build_source rest_cfg = Inr (Some (RestSource, rest_source))"
  by (simp add: build_source_def base_init_def rate_limit_init_def rest_source_def rest_cfg_def
      lower_defs eval_defs)

lemma build_source_skipped: "build_source skipped_cfg = Inr None"
  by (simp add: build_source_def skipped_cfg_def lower_defs eval_defs)

text \<open>
  C1. A source whose fetch raises adds no item, stops no other source and is logged
  with that source's key; the result is the concatenation of the successful sources'
  items, and a configuration of unrecognised type is skipped. The items are as claimed
  (\<open>fetch_custom_all_items\<close>). The key that is logged is read from the configuration
  at the position of the failing task among the tasks, and the skipped configurations
  shift the positions: with the skipped source \<open>a\<close> before the failing source \<open>b\<close>,
  the failure of \<open>b\<close> is logged with the key \<open>a\<close>.
\<close>

theorem fetch_custom_all_logs_skipped_key:
  "fetch_custom_all demo_world demo_env [skipped_cfg, rest_cfg] =
     Inr ([], [(PStr ''a'', HTTPStatusError)])"
proof -
  have tasks: "build_tasks [skipped_cfg, rest_cfg] [] = Inr [(RestSource, rest_source)]"
    by (simp add: build_source_rest build_source_skipped)
  have f: "fetch demo_world demo_env (RestSource, rest_source) = Inl HTTPStatusError"
    by (simp add: fetch_def rest_fetch_def demo_world_def rest_source_def rest_cfg_def eval_defs)
  have k: "dict_get_default skipped_cfg ''key'' d = PStr ''a''" for d
    by (simp add: dict_get_default_def skipped_cfg_def)
  show ?thesis unfolding fetch_custom_all_def tasks by (simp add: f k)
qed


end
